theory Spec2Isabelle
  imports Main "HOL-Library.Monad_Syntax" "HOL-Library.Word"
begin

section \<open>Geometric region engine\<close>

text \<open>
  \<open>FGLWindowSurface::Rect\<close>: four \<open>int32_t\<close> edges. The functions modelled here
  (\<open>isEmpty\<close>, \<open>andSelf\<close>, \<open>Region::subtract\<close>) only compare and copy edges, they never
  do arithmetic on them, so every edge of a result is an edge of an argument and the
  embedding of \<open>int32_t\<close> into \<open>int\<close> is exact.
\<close>

record Rect =
  r_left :: int
  r_top :: int
  r_right :: int
  r_bottom :: int

text \<open>The templates \<open>max\<close> and \<open>min\<close> of the source file.\<close>

definition max_T :: "int \<Rightarrow> int \<Rightarrow> int" where
  "max_T a b = (if a > b then a else b)"

definition min_T :: "int \<Rightarrow> int \<Rightarrow> int" where
  "min_T a b = (if a < b then a else b)"

text \<open>\<open>Rect(w, h)\<close> and \<open>Rect(l, t, r, b)\<close>.\<close>

definition Rect_wh :: "int \<Rightarrow> int \<Rightarrow> Rect" where
  "Rect_wh w h = \<lparr>r_left = 0, r_top = 0, r_right = w, r_bottom = h\<rparr>"

definition Rect_ltrb :: "int \<Rightarrow> int \<Rightarrow> int \<Rightarrow> int \<Rightarrow> Rect" where
  "Rect_ltrb l t r b = \<lparr>r_left = l, r_top = t, r_right = r, r_bottom = b\<rparr>"

definition andSelf :: "Rect \<Rightarrow> Rect \<Rightarrow> Rect" where
  "andSelf this r =
     \<lparr>r_left = max_T (r_left this) (r_left r),
      r_top = max_T (r_top this) (r_top r),
      r_right = min_T (r_right this) (r_right r),
      r_bottom = min_T (r_bottom this) (r_bottom r)\<rparr>"

definition isEmpty :: "Rect \<Rightarrow> bool" where
  "isEmpty r = (r_left r \<ge> r_right r \<or> r_top r \<ge> r_bottom r)"

text \<open>
  \<open>FGLWindowSurface::Region\<close>: \<open>Rect storage[4]\<close> and \<open>ssize_t count\<close>. The default
  constructor of \<open>Rect\<close> initialises nothing, so a slot of the array is \<open>None\<close> until
  it is written.
\<close>

record Region =
  rg_storage :: "Rect option list"
  rg_count :: int

definition Region_init :: Region where
  "Region_init = \<lparr>rg_storage = replicate 4 None, rg_count = 0\<rparr>"

definition Region_isEmpty :: "Region \<Rightarrow> bool" where
  "Region_isEmpty reg = (rg_count reg \<le> 0)"

text \<open>
  The local \<open>Rect* storage\<close> of \<open>subtract\<close> is a cursor into \<open>reg.storage\<close>: the array
  and the offset of the pointer. \<open>put_rect\<close> is the block
  \<open>storage->left = ...; ...; storage++\<close>; a write at an offset outside the array is
  the fault \<open>None\<close>.
\<close>

type_synonym cursor = "Rect option list \<times> nat"

definition put_rect :: "cursor \<Rightarrow> Rect \<Rightarrow> cursor option" where
  "put_rect c r =
     (case c of (st, p) \<Rightarrow>
        if p < length st then Some (st[p := Some r], Suc p) else None)"

definition subtract :: "Rect \<Rightarrow> Rect \<Rightarrow> Region option" where
  "subtract lhs rhs =
     (let reg = Region_init; c0 = (rg_storage reg, 0) in
      if \<not> isEmpty lhs then
        do {
          c1 \<leftarrow> (if r_top lhs < r_top rhs
                then put_rect c0 \<lparr>r_left = r_left lhs, r_top = r_top lhs,
                                  r_right = r_right lhs, r_bottom = r_top rhs\<rparr>
                else Some c0);
          let top = max_T (r_top lhs) (r_top rhs);
          let bot = min_T (r_bottom lhs) (r_bottom rhs);
          c3 \<leftarrow> (if top < bot then
                  do {
                    c2 \<leftarrow> (if r_left lhs < r_left rhs
                          then put_rect c1 \<lparr>r_left = r_left lhs, r_top = top,
                                            r_right = r_left rhs, r_bottom = bot\<rparr>
                          else Some c1);
                    (if r_right lhs > r_right rhs
                     then put_rect c2 \<lparr>r_left = r_right rhs, r_top = top,
                                       r_right = r_right lhs, r_bottom = bot\<rparr>
                     else Some c2)
                  }
                else Some c1);
          c4 \<leftarrow> (if r_bottom lhs > r_bottom rhs
                then put_rect c3 \<lparr>r_left = r_left lhs, r_top = r_bottom rhs,
                                  r_right = r_right lhs, r_bottom = r_bottom lhs\<rparr>
                else Some c3);
          Some (reg\<lparr>rg_storage := fst c4, rg_count := int (snd c4)\<rparr>)
        }
      else Some reg)"

text \<open>
  \<open>begin()\<close> to \<open>end()\<close>: the first \<open>count\<close> slots, in order. Reading a slot that was
  never written gives \<open>None\<close>.
\<close>

definition region_rects :: "Region \<Rightarrow> Rect list option" where
  "region_rects reg = those (take (nat (rg_count reg)) (rg_storage reg))"

text \<open>
  The decomposition in the words of the specification: the strip above, then inside the
  common vertical band the strip to the left and the strip to the right, then the strip
  below, each under its guard.
\<close>

definition subtract_spec :: "Rect \<Rightarrow> Rect \<Rightarrow> Rect list" where
  "subtract_spec lhs rhs =
     (if isEmpty lhs then []
      else
        (if r_top lhs < r_top rhs
         then [Rect_ltrb (r_left lhs) (r_top lhs) (r_right lhs) (r_top rhs)] else []) @
        (if max (r_top lhs) (r_top rhs) < min (r_bottom lhs) (r_bottom rhs)
         then
           (if r_left lhs < r_left rhs
            then [Rect_ltrb (r_left lhs) (max (r_top lhs) (r_top rhs))
                            (r_left rhs) (min (r_bottom lhs) (r_bottom rhs))] else []) @
           (if r_right lhs > r_right rhs
            then [Rect_ltrb (r_right rhs) (max (r_top lhs) (r_top rhs))
                            (r_right lhs) (min (r_bottom lhs) (r_bottom rhs))] else [])
         else []) @
        (if r_bottom lhs > r_bottom rhs
         then [Rect_ltrb (r_left lhs) (r_bottom rhs) (r_right lhs) (r_bottom lhs)] else []))"

text \<open>A rectangle covers the pixels with \<open>left \<le> x < right\<close> and \<open>top \<le> y < bottom\<close>.\<close>

definition covers :: "Rect \<Rightarrow> int \<Rightarrow> int \<Rightarrow> bool" where
  "covers r x y = (r_left r \<le> x \<and> x < r_right r \<and> r_top r \<le> y \<and> y < r_bottom r)"

definition covered :: "Rect list \<Rightarrow> int \<Rightarrow> int \<Rightarrow> bool" where
  "covered rs x y = list_ex (\<lambda>r. covers r x y) rs"

text \<open>The rectangles an iteration over the result of \<open>subtract\<close> yields.\<close>

definition subtract_rects :: "Rect \<Rightarrow> Rect \<Rightarrow> Rect list option" where
  "subtract_rects lhs rhs = subtract lhs rhs \<bind> region_rects"

text \<open>
  \<open>b\<close> reaches \<open>a\<close>: on each axis the near edge of \<open>b\<close> is not beyond the far
  edge of \<open>a\<close>. Two rectangles that intersect reach each other.
\<close>

definition reaches :: "Rect \<Rightarrow> Rect \<Rightarrow> bool" where
  "reaches a b = (r_top b \<le> r_bottom a \<and> r_top a \<le> r_bottom b \<and>
                  r_left b \<le> r_right a \<and> r_left a \<le> r_right b)"

section \<open>Machine integers\<close>

text \<open>
  The target is a 32-bit machine: \<open>int\<close>, \<open>int32_t\<close>, \<open>EGLint\<close> and \<open>ssize_t\<close> are
  32-bit signed, \<open>size_t\<close>, \<open>FGLuint\<close> and pointers 32-bit unsigned. \<open>int32\<close> takes
  an integer into the signed range and \<open>u32\<close> into the unsigned range, modulo \<open>2^32\<close>:
  the value a sum, difference or product has in the machine.
\<close>

definition int32 :: "int \<Rightarrow> int" where
  "int32 x = (x + 2 ^ 31) mod 2 ^ 32 - 2 ^ 31"

definition u32 :: "int \<Rightarrow> nat" where
  "u32 x = nat (x mod 2 ^ 32)"

section \<open>Manual pixel copy of \<open>copyBlt\<close>\<close>

text \<open>
  Pixel memory is a function from byte addresses to bytes. An address is the offset
  from the mapped base of a buffer (\<open>dst_bits\<close>, \<open>src_bits\<close>), a 32-bit unsigned
  number; the two buffers are separate mappings, so the source is only read and the
  destination only written. \<open>bpp\<close> is the value of \<open>getBpp(src->format)\<close> as a
  \<open>size_t\<close>.
\<close>

type_synonym memory = "int \<Rightarrow> 8 word"

text \<open>One call \<open>memcpy(d, s, n)\<close>: destination, source, number of bytes.\<close>

type_synonym memcpy_call = "int \<times> int \<times> int"

definition memcpy :: "memory \<Rightarrow> memory \<Rightarrow> memcpy_call \<Rightarrow> memory" where
  "memcpy dstm srcm c =
     (case c of (d, s, n) \<Rightarrow>
        (\<lambda>a. if d \<le> a \<and> a < d + n then srcm (s + (a - d)) else dstm a))"

text \<open>
  The loop \<open>do { memcpy(d, s, size); d += dbpr; s += sbpr; } while (--h > 0)\<close>, as
  the list of the calls it makes, in order. The pointer sums are taken modulo \<open>2^32\<close>.
  The loop is entered with \<open>h\<close> between 1 and \<open>2^31 - 1\<close>, where \<open>--h\<close> does not
  wrap.
\<close>

function memcpy_loop :: "int \<Rightarrow> int \<Rightarrow> int \<Rightarrow> int \<Rightarrow> int \<Rightarrow> int \<Rightarrow> memcpy_call list" where
  "memcpy_loop d s sz dbpr sbpr h =
     (d, s, sz) #
     (if h - 1 > 0
      then memcpy_loop ((d + dbpr) mod 2 ^ 32) ((s + sbpr) mod 2 ^ 32) sz dbpr sbpr (h - 1)
      else [])"
  by pat_completeness auto
termination
  by (relation "measure (\<lambda>(d, s, sz, dbpr, sbpr, h). nat h)") auto

text \<open>
  The body of \<open>while (cur != end)\<close> for one rectangle of the clip region. \<open>w\<close> and
  \<open>h\<close> are differences of \<open>int32_t\<close> values, the row pitches, the size and the two
  offsets are \<open>size_t\<close> products.
\<close>

definition copy_rect :: "nat \<Rightarrow> int \<Rightarrow> int \<Rightarrow> Rect \<Rightarrow> memcpy_call list" where
  "copy_rect bpp dst_stride src_stride r =
     (let dbpr = (dst_stride * int bpp) mod 2 ^ 32;
          sbpr = (src_stride * int bpp) mod 2 ^ 32;
          w = int32 (r_right r - r_left r);
          h = int32 (r_bottom r - r_top r)
      in if w \<le> 0 \<or> h \<le> 0 then []
         else
           let sz = (w * int bpp) mod 2 ^ 32;
               s = ((r_left r + src_stride * r_top r) * int bpp) mod 2 ^ 32;
               d = ((r_left r + dst_stride * r_top r) * int bpp) mod 2 ^ 32
           in if dbpr = sbpr \<and> sz = sbpr
              then memcpy_loop d s ((sz * h) mod 2 ^ 32) dbpr sbpr 1
              else memcpy_loop d s sz dbpr sbpr h)"

text \<open>
  The same rectangle copied row by row, without the test that collapses the loop into
  one call: the reference the collapsed copy is compared with.
\<close>

definition copy_rect_by_rows :: "nat \<Rightarrow> int \<Rightarrow> int \<Rightarrow> Rect \<Rightarrow> memcpy_call list" where
  "copy_rect_by_rows bpp dst_stride src_stride r =
     (let w = int32 (r_right r - r_left r);
          h = int32 (r_bottom r - r_top r)
      in if w \<le> 0 \<or> h \<le> 0 then []
         else memcpy_loop (((r_left r + dst_stride * r_top r) * int bpp) mod 2 ^ 32)
                          (((r_left r + src_stride * r_top r) * int bpp) mod 2 ^ 32)
                          ((w * int bpp) mod 2 ^ 32)
                          ((dst_stride * int bpp) mod 2 ^ 32)
                          ((src_stride * int bpp) mod 2 ^ 32) h)"

definition run_memcpy :: "memory \<Rightarrow> memory \<Rightarrow> memcpy_call list \<Rightarrow> memory" where
  "run_memcpy dstm srcm cs = foldl (\<lambda>m c. memcpy m srcm c) dstm cs"

text \<open>The fallback branch \<open>if (!copybit || err)\<close> over the rectangles of the clip region.\<close>

definition copyBlt_manual :: "nat \<Rightarrow> int \<Rightarrow> int \<Rightarrow> Rect list \<Rightarrow> memcpy_call list" where
  "copyBlt_manual bpp dst_stride src_stride clip =
     concat (map (copy_rect bpp dst_stride src_stride) clip)"

text \<open>
  \<open>copyBlt\<close>: the blit engine, when one was opened, is an external device that
  returns an error code and leaves the destination in some state; the manual copy runs
  when there is no engine or it reported an error.
\<close>

definition copyBlt ::
  "(memory \<Rightarrow> memory \<Rightarrow> Rect list \<Rightarrow> int \<times> memory) option \<Rightarrow>
   nat \<Rightarrow> int \<Rightarrow> int \<Rightarrow> memory \<Rightarrow> memory \<Rightarrow> Rect list \<Rightarrow> memory" where
  "copyBlt blitengine bpp dst_stride src_stride dstm srcm clip =
     (case blitengine of
        None \<Rightarrow> run_memcpy dstm srcm (copyBlt_manual bpp dst_stride src_stride clip)
      | Some blit \<Rightarrow>
          (case blit dstm srcm clip of (err, m) \<Rightarrow>
             if err \<noteq> 0
             then run_memcpy m srcm (copyBlt_manual bpp dst_stride src_stride clip)
             else m))"

text \<open>Bytes written and bytes read by a list of calls.\<close>

definition written :: "memcpy_call list \<Rightarrow> int set" where
  "written cs = (\<Union>(d, s, n) \<in> set cs. {d ..< d + n})"


text \<open>
  The bytes of a rectangle in a buffer of the given stride (in pixels): in each row
  \<open>y\<close> of the rectangle, from the first byte of pixel \<open>(left, y)\<close> up to the first byte
  of pixel \<open>(right, y)\<close>. \<open>pixel_byte\<close> is the address of byte \<open>k\<close> of pixel
  \<open>(x, y)\<close>.
\<close>

definition rect_bytes :: "nat \<Rightarrow> int \<Rightarrow> Rect \<Rightarrow> int set" where
  "rect_bytes bpp stride r =
     (\<Union>y \<in> {r_top r ..< r_bottom r}.
        {(r_left r + stride * y) * int bpp ..< (r_right r + stride * y) * int bpp})"

definition pixel_byte :: "nat \<Rightarrow> int \<Rightarrow> int \<Rightarrow> int \<Rightarrow> nat \<Rightarrow> int" where
  "pixel_byte bpp stride x y k = (x + stride * y) * int bpp + int k"

text \<open>
  A rectangle lies within two buffers of \<open>rows\<close> rows, with strides \<open>ds\<close> and \<open>ss\<close>,
  each of less than \<open>2^31\<close> bytes.
\<close>

definition fits :: "nat \<Rightarrow> int \<Rightarrow> int \<Rightarrow> int \<Rightarrow> Rect \<Rightarrow> bool" where
  "fits bpp ds ss rows r =
     (0 \<le> r_left r \<and> r_left r \<le> r_right r \<and> r_right r \<le> ds \<and> r_right r \<le> ss \<and>
      0 \<le> r_top r \<and> r_top r \<le> r_bottom r \<and> r_bottom r \<le> rows \<and>
      ds < 2 ^ 31 \<and> ss < 2 ^ 31 \<and> rows < 2 ^ 31 \<and>
      ds * rows * int bpp < 2 ^ 31 \<and> ss * rows * int bpp < 2 ^ 31)"

section \<open>Window surface\<close>

text \<open>
  Pointers are natural numbers, \<open>0\<close> the null pointer. An
  \<open>android_native_buffer_t*\<close> that is not null is the pointer together with the
  fields of the buffer the code reads; a pointer that may be null is an \<open>option\<close>.
  Of \<open>buf->handle\<close> the code reads two things: whether
  \<open>sw_gralloc_handle_t::validate(buf->handle)\<close> is negative, and, when it is not, the
  field \<open>base\<close> of the software handle. \<open>nb_sw_base\<close> is \<open>None\<close> in the first case
  and \<open>Some base\<close> in the second.
\<close>

type_synonym addr = nat

record android_native_buffer_t =
  nb_ptr :: nat
  nb_width :: int
  nb_height :: int
  nb_stride :: int
  nb_format :: int
  nb_sw_base :: "addr option"

text \<open>\<open>FGLPlane\<close>: the \<open>FGLuint\<close> fields are 32-bit unsigned.\<close>

record FGLPlane =
  pl_version :: nat
  pl_width :: nat
  pl_height :: nat
  pl_stride :: nat
  pl_data :: addr
  pl_format :: int

definition sizeof_FGLPlane :: nat where
  "sizeof_FGLPlane = 24"

datatype EGLBoolean = EGL_FALSE | EGL_TRUE

datatype EGLError = EGL_SUCCESS | EGL_BAD_ACCESS | EGL_BAD_ALLOC

text \<open>
  Every call that leaves the surface code is an event of the trace, in the order the
  calls are made: the native window (\<open>native_window_set_usage\<close>, \<open>dequeueBuffer\<close>,
  \<open>lockBuffer\<close>, \<open>queueBuffer\<close>), the reference count of a buffer, the gralloc lock
  and unlock that \<open>lock\<close> and \<open>unlock\<close> make for a buffer whose handle is not a
  software handle, \<open>copyBlt\<close> with destination, source and clip region, and the
  allocator.
\<close>

datatype event =
    SetUsage
  | DequeueBuffer "android_native_buffer_t option"
  | LockBuffer "nat option"
  | QueueBuffer "nat option"
  | IncRef nat
  | DecRef nat
  | Lock nat
  | LockFailed nat
  | Unlock nat
  | CopyBlt nat addr nat addr Region
  | FreeMemory addr
  | AllocMemory nat addr

text \<open>
  What the environment answers. Each answer may depend on the number of calls made so
  far. \<open>dequeueBuffer\<close> gives a buffer, or \<open>None\<close> for an error that leaves the
  pointer argument as it was; \<open>module_lock\<close> gives the mapped address, or \<open>None\<close>
  for an error; \<open>fimgAllocMemory\<close> gives the address of the block or the null
  pointer; \<open>getBpp\<close> gives the number of bytes of a pixel of a format;
  \<open>copybit_blit\<close> is \<open>copybit->blit\<close>, a device outside the program: from the
  destination, the source and the rectangles of the region it gives its error code and
  the destination as the device leaves it.

  \<open>fimgAllocMemory\<close> and \<open>getBpp\<close> have bodies in this source tree, both marked
  \<open>#warning Unimplemented\<close>: \<open>fimgAllocMemory_unimplemented\<close> returns the null
  pointer and \<open>getBpp_unimplemented\<close> returns 0. The surface code is verified for
  every allocator and every \<open>getBpp\<close>, these two among them.
\<close>

record hal =
  dequeueBuffer :: "nat \<Rightarrow> android_native_buffer_t option"
  module_lock :: "nat \<Rightarrow> android_native_buffer_t \<Rightarrow> addr option"
  fimgAllocMemory :: "nat \<Rightarrow> nat \<Rightarrow> addr"
  getBpp :: "int \<Rightarrow> int"
  copybit_blit :: "nat \<Rightarrow> memory \<Rightarrow> memory \<Rightarrow> Rect list \<Rightarrow> int \<times> memory"

definition fimgAllocMemory_unimplemented :: "nat \<Rightarrow> nat \<Rightarrow> addr" where
  "fimgAllocMemory_unimplemented n sz = 0"

definition getBpp_unimplemented :: "int \<Rightarrow> int" where
  "getBpp_unimplemented format = 0"

text \<open>
  The fields of \<open>FGLWindowSurface\<close> the swap chain uses, with the thread's EGL error
  (\<open>setError\<close>), the trace, and the pixel memory: \<open>pixels w a\<close> is the memory of the
  buffer mapped at the address \<open>a\<close>, its bytes numbered by their offset from \<open>a\<close>.
  Two buffers mapped at different addresses are different memories.
\<close>

record FGLWindowSurface =
  depth :: FGLPlane
  buffer :: "android_native_buffer_t option"
  previousBuffer :: "android_native_buffer_t option"
  blitengine :: addr
  width :: int
  height :: int
  bits :: addr
  dirtyRegion :: Rect
  oldDirtyRegion :: Rect
  eglError :: EGLError
  pixels :: "addr \<Rightarrow> memory"
  trace :: "event list"

definition emit :: "event \<Rightarrow> FGLWindowSurface \<Rightarrow> FGLWindowSurface" where
  "emit e w = w\<lparr>trace := trace w @ [e]\<rparr>"

definition setError :: "EGLError \<Rightarrow> FGLWindowSurface \<Rightarrow> FGLWindowSurface" where
  "setError e w = w\<lparr>eglError := e\<rparr>"

text \<open>
  The constructor: fields it does not initialise keep the value they have in \<open>raw\<close>.
  \<open>win_w\<close> and \<open>win_h\<close> are the answers of the two \<open>nativeWindow->query\<close> calls,
  \<open>engine\<close> is the device \<open>copybit_open\<close> stored in \<open>blitengine\<close>, or the null pointer
  the initialiser list put there when there is no copybit module or it was not opened.
\<close>

definition FGLWindowSurface_new ::
  "FGLWindowSurface \<Rightarrow> int \<Rightarrow> int \<Rightarrow> int \<Rightarrow> addr \<Rightarrow> FGLWindowSurface" where
  "FGLWindowSurface_new raw depthFormat win_w win_h engine =
     raw\<lparr>depth := (depth raw)\<lparr>pl_version := sizeof_FGLPlane, pl_data := 0,
                                pl_format := depthFormat\<rparr>,
         buffer := None, previousBuffer := None, blitengine := engine, bits := 0,
         width := win_w, height := win_h, trace := []\<rparr>"

text \<open>
  \<open>lock\<close>: for a software handle no call is made, the address is the \<open>base\<close> of the
  handle and the result is \<open>FGL_NO_ERROR\<close>; otherwise the result is that of
  \<open>module->lock\<close>. The address is \<open>None\<close> when the result is an error. \<open>unlock\<close>:
  \<open>BAD_VALUE\<close> for a null buffer, no call for a software handle, otherwise
  \<open>module->unlock\<close>; no caller reads the result.
\<close>

definition lock ::
  "hal \<Rightarrow> android_native_buffer_t \<Rightarrow> FGLWindowSurface \<Rightarrow> addr option \<times> FGLWindowSurface" where
  "lock h buf w =
     (case nb_sw_base buf of
        None \<Rightarrow>
          (case module_lock h (length (trace w)) buf of
             None \<Rightarrow> (None, emit (LockFailed (nb_ptr buf)) w)
           | Some vaddr \<Rightarrow> (Some vaddr, emit (Lock (nb_ptr buf)) w))
      | Some base \<Rightarrow> (Some base, w))"

definition unlock ::
  "android_native_buffer_t option \<Rightarrow> FGLWindowSurface \<Rightarrow> FGLWindowSurface" where
  "unlock buf w =
     (case buf of
        None \<Rightarrow> w
      | Some b \<Rightarrow>
          (case nb_sw_base b of
             None \<Rightarrow> emit (Unlock (nb_ptr b)) w
           | Some base \<Rightarrow> w))"

text \<open>\<open>connect\<close> from \<open>// keep a reference on the buffer\<close> to its end.\<close>

definition connect_pin ::
  "hal \<Rightarrow> android_native_buffer_t \<Rightarrow> FGLWindowSurface \<Rightarrow> EGLBoolean \<times> FGLWindowSurface" where
  "connect_pin h b w =
     (let w = emit (IncRef (nb_ptr b)) w;
          w = emit (LockBuffer (Some (nb_ptr b))) w
      in case lock h b w of
           (None, w) \<Rightarrow> (EGL_FALSE, setError EGL_BAD_ACCESS w)
         | (Some vaddr, w) \<Rightarrow> (EGL_TRUE, w\<lparr>bits := vaddr\<rparr>))"

definition connect :: "hal \<Rightarrow> FGLWindowSurface \<Rightarrow> EGLBoolean \<times> FGLWindowSurface" where
  "connect h w =
     (let w = emit SetUsage w;
          r = dequeueBuffer h (length (trace w));
          w = emit (DequeueBuffer r) w
      in case r of
           None \<Rightarrow> (EGL_FALSE, setError EGL_BAD_ALLOC w)
         | Some b \<Rightarrow>
             let w = w\<lparr>buffer := Some b, width := nb_width b, height := nb_height b\<rparr>
             in if pl_format (depth w) \<noteq> 0 then
                  let dp = (depth w)\<lparr>pl_width := u32 (width w), pl_height := u32 (height w),
                                     pl_stride := u32 (width w)\<rparr>;
                      sz = (pl_stride dp * pl_height dp * 4) mod 2 ^ 32;
                      a = fimgAllocMemory h (length (trace w)) sz;
                      w = (emit (AllocMemory sz a) w)\<lparr>depth := dp\<lparr>pl_data := a\<rparr>\<rparr>
                  in if a = 0 then (EGL_FALSE, setError EGL_BAD_ALLOC w)
                     else connect_pin h b w
                else connect_pin h b w)"

definition disconnect :: "FGLWindowSurface \<Rightarrow> FGLWindowSurface" where
  "disconnect w =
     (let w = (if buffer w \<noteq> None \<and> bits w \<noteq> 0
               then unlock (buffer w) (w\<lparr>bits := 0\<rparr>) else w);
          w = emit (QueueBuffer (map_option nb_ptr (buffer w))) w;
          w = (case buffer w of
                 None \<Rightarrow> w
               | Some b \<Rightarrow> (emit (DecRef (nb_ptr b)) w)\<lparr>buffer := None\<rparr>);
          w = (case previousBuffer w of
                 None \<Rightarrow> w
               | Some p \<Rightarrow> (emit (DecRef (nb_ptr p)) w)\<lparr>previousBuffer := None\<rparr>)
      in w)"

text \<open>
  The call \<open>copyBlt(buffer, bits, previousBuffer, prevBits, copyBack)\<close> of
  \<open>swapBuffers\<close>: the destination is the memory mapped at \<open>dst_vaddr\<close>, the source
  the memory mapped at \<open>src_vaddr\<close>, \<open>bpp\<close> is \<open>getBpp(src->format)\<close> converted to
  \<open>size_t\<close>, and the blit engine is used when \<open>blitengine\<close> is not null. The code
  does not test \<open>dst_vaddr\<close>; a mapping at the null address is a mapping like any
  other here. The result is \<open>None\<close> only if the iteration over the region reads a
  slot never written.
\<close>

definition swapBuffers_copyBlt ::
  "hal \<Rightarrow> android_native_buffer_t \<Rightarrow> addr \<Rightarrow> android_native_buffer_t \<Rightarrow> addr \<Rightarrow> Region \<Rightarrow>
   FGLWindowSurface \<Rightarrow> FGLWindowSurface option" where
  "swapBuffers_copyBlt h dst dst_vaddr src src_vaddr clip w =
     do {
       rs \<leftarrow> region_rects clip;
       let engine = (if blitengine w \<noteq> 0 then Some (copybit_blit h (length (trace w)))
                     else None);
       let m = copyBlt engine (u32 (getBpp h (nb_format src))) (nb_stride dst) (nb_stride src)
                 (pixels w dst_vaddr) (pixels w src_vaddr) rs;
       Some ((emit (CopyBlt (nb_ptr dst) dst_vaddr (nb_ptr src) src_vaddr clip) w)
               \<lparr>pixels := (pixels w)(dst_vaddr := m)\<rparr>)
     }"

text \<open>
  \<open>swapBuffers\<close>, the block under \<open>Handle eglSetSwapRectangleANDROID()\<close>. \<open>b\<close> is
  the current buffer. The result is \<open>None\<close> only if \<open>subtract\<close> faults.
\<close>

definition swapBuffers_copyBack ::
  "hal \<Rightarrow> android_native_buffer_t \<Rightarrow> FGLWindowSurface \<Rightarrow> FGLWindowSurface option" where
  "swapBuffers_copyBack h b w =
     (if \<not> isEmpty (dirtyRegion w) then
        do {
          let w = w\<lparr>dirtyRegion :=
                      andSelf (dirtyRegion w) (Rect_wh (nb_width b) (nb_height b))\<rparr>;
          w \<leftarrow> (case previousBuffer w of
                  None \<Rightarrow> Some w
                | Some p \<Rightarrow>
                    do {
                      copyBack \<leftarrow> subtract (oldDirtyRegion w) (dirtyRegion w);
                      (if \<not> Region_isEmpty copyBack then
                         (case lock h p w of
                            (Some prevBits, w) \<Rightarrow>
                              map_option (unlock (Some p))
                                (swapBuffers_copyBlt h b (bits w) p prevBits copyBack w)
                          | (None, w) \<Rightarrow> Some w)
                       else Some w)
                    });
          Some (w\<lparr>oldDirtyRegion := dirtyRegion w\<rparr>)
        }
      else Some w)"

text \<open>\<open>swapBuffers\<close> from \<open>// keep a reference on the buffer\<close> to its end.\<close>

definition swapBuffers_pin ::
  "hal \<Rightarrow> android_native_buffer_t \<Rightarrow> FGLWindowSurface \<Rightarrow> EGLBoolean \<times> FGLWindowSurface" where
  "swapBuffers_pin h nb w =
     (let w = emit (IncRef (nb_ptr nb)) w
      in case lock h nb w of
           (None, w) \<Rightarrow> (EGL_FALSE, setError EGL_BAD_ACCESS w)
         | (Some vaddr, w) \<Rightarrow> (EGL_TRUE, w\<lparr>bits := vaddr\<rparr>))"

text \<open>
  \<open>swapBuffers\<close> from \<open>// reallocate the depth-buffer if needed\<close> on. \<open>nb\<close> is the
  buffer just dequeued.
\<close>

definition swapBuffers_acquire ::
  "hal \<Rightarrow> android_native_buffer_t \<Rightarrow> FGLWindowSurface \<Rightarrow> EGLBoolean \<times> FGLWindowSurface" where
  "swapBuffers_acquire h nb w =
     (if width w \<noteq> nb_width nb \<or> height w \<noteq> nb_height nb then
        let w = w\<lparr>width := nb_width nb, height := nb_height nb\<rparr>
        in if pl_data (depth w) \<noteq> 0 then
             let w = emit (FreeMemory (pl_data (depth w))) w;
                 dp = (depth w)\<lparr>pl_width := u32 (width w), pl_height := u32 (height w),
                                pl_stride := u32 (nb_stride nb)\<rparr>;
                 sz = (pl_stride dp * pl_height dp * 4) mod 2 ^ 32;
                 a = fimgAllocMemory h (length (trace w)) sz;
                 w = (emit (AllocMemory sz a) w)\<lparr>depth := dp\<lparr>pl_data := a\<rparr>\<rparr>
             in if a = 0 then (EGL_FALSE, setError EGL_BAD_ALLOC w)
                else swapBuffers_pin h nb w
           else swapBuffers_pin h nb w
      else swapBuffers_pin h nb w)"

text \<open>
  \<open>swapBuffers\<close> from \<open>if (previousBuffer)\<close> to \<open>nativeWindow->lockBuffer\<close>: the
  reference on the previous buffer is released, the current buffer is unlocked, becomes
  the previous buffer and is queued, and a new buffer is dequeued. The result of
  \<open>dequeueBuffer\<close> is not tested; on an error \<open>buffer\<close> stays null.
\<close>

definition swapBuffers_handoff :: "hal \<Rightarrow> FGLWindowSurface \<Rightarrow> FGLWindowSurface" where
  "swapBuffers_handoff h w =
     (let w = (case previousBuffer w of
                 None \<Rightarrow> w
               | Some p \<Rightarrow> (emit (DecRef (nb_ptr p)) w)\<lparr>previousBuffer := None\<rparr>);
          w = unlock (buffer w) w;
          w = w\<lparr>previousBuffer := buffer w\<rparr>;
          w = emit (QueueBuffer (map_option nb_ptr (buffer w))) w;
          w = w\<lparr>buffer := None\<rparr>;
          r = dequeueBuffer h (length (trace w));
          w = (emit (DequeueBuffer r) w)
                \<lparr>buffer := (case r of None \<Rightarrow> buffer w | Some nb \<Rightarrow> Some nb)\<rparr>;
          w = emit (LockBuffer (map_option nb_ptr (buffer w))) w
      in w)"

text \<open>
  \<open>swapBuffers\<close>. When the new \<open>buffer\<close> is null, \<open>buffer->width\<close> dereferences
  the null pointer, which is the result \<open>None\<close>.
\<close>

definition swapBuffers ::
  "hal \<Rightarrow> FGLWindowSurface \<Rightarrow> (EGLBoolean \<times> FGLWindowSurface) option" where
  "swapBuffers h w =
     (case buffer w of
        None \<Rightarrow> Some (EGL_FALSE, setError EGL_BAD_ACCESS w)
      | Some b \<Rightarrow>
          do {
            w \<leftarrow> swapBuffers_copyBack h b w;
            let w = swapBuffers_handoff h w;
            (case buffer w of
               None \<Rightarrow> None
             | Some nb \<Rightarrow> Some (swapBuffers_acquire h nb w))
          })"

text \<open>
  \<open>setSwapRectangle\<close>: the sums \<open>l+w\<close> and \<open>t+h\<close> are \<open>EGLint\<close> additions, taken
  modulo \<open>2^32\<close> into the signed range.
\<close>

definition setSwapRectangle ::
  "int \<Rightarrow> int \<Rightarrow> int \<Rightarrow> int \<Rightarrow> FGLWindowSurface \<Rightarrow> EGLBoolean \<times> FGLWindowSurface" where
  "setSwapRectangle l t w h s =
     (EGL_TRUE, s\<lparr>dirtyRegion := Rect_ltrb l t (int32 (l + w)) (int32 (t + h))\<rparr>)"



text \<open>
  The books of the buffers, kept along a trace: for each buffer pointer the references
  taken and not yet released and the gralloc locks taken and not yet released. The
  books stay \<open>sound\<close> as long as no reference is released that was not taken, no buffer
  is unlocked that was not locked, and no buffer is queued while it is locked.
\<close>

record ledger =
  refs :: "nat \<Rightarrow> int"
  locks :: "nat \<Rightarrow> int"
  sound :: bool

definition ledger0 :: ledger where
  "ledger0 = \<lparr>refs = (\<lambda>_. 0), locks = (\<lambda>_. 0), sound = True\<rparr>"

fun account :: "ledger \<Rightarrow> event \<Rightarrow> ledger" where
  "account L (IncRef p) = L\<lparr>refs := (refs L)(p := refs L p + 1)\<rparr>"
| "account L (DecRef p) =
     L\<lparr>refs := (refs L)(p := refs L p - 1), sound := (sound L \<and> refs L p > 0)\<rparr>"
| "account L (Lock p) = L\<lparr>locks := (locks L)(p := locks L p + 1)\<rparr>"
| "account L (Unlock p) =
     L\<lparr>locks := (locks L)(p := locks L p - 1), sound := (sound L \<and> locks L p > 0)\<rparr>"
| "account L (QueueBuffer (Some p)) = L\<lparr>sound := (sound L \<and> locks L p = 0)\<rparr>"
| "account L _ = L"

definition audit :: "event list \<Rightarrow> ledger" where
  "audit tr = foldl account ledger0 tr"




text \<open>The calls made between the state \<open>w\<close> and a later state \<open>w'\<close>.\<close>

definition since :: "FGLWindowSurface \<Rightarrow> FGLWindowSurface \<Rightarrow> event list" where
  "since w w' = drop (length (trace w)) (trace w')"

fun is_CopyBlt :: "event \<Rightarrow> bool" where
  "is_CopyBlt (CopyBlt dst dst_vaddr src src_vaddr clip) = True"
| "is_CopyBlt _ = False"

fun is_allocator_call :: "event \<Rightarrow> bool" where
  "is_allocator_call (FreeMemory a) = True"
| "is_allocator_call (AllocMemory sz a) = True"
| "is_allocator_call _ = False"


section \<open>Pbuffer surface\<close>

text \<open>
  The values of the four \<open>FGL_PIXEL_FORMAT_*\<close> constants of the \<open>switch\<close> come from a
  header that is not part of this source tree: they are parameters.
\<close>

record pixel_formats =
  FGL_PIXEL_FORMAT_A_8 :: int
  FGL_PIXEL_FORMAT_RGB_565 :: int
  FGL_PIXEL_FORMAT_RGBA_8888 :: int
  FGL_PIXEL_FORMAT_RGBX_8888 :: int

record FGLPbufferSurface =
  pb_depth :: FGLPlane
  pbuffer :: FGLPlane
  pb_eglError :: EGLError

text \<open>
  The \<open>switch (f)\<close> of the constructor: the new \<open>size\<close> (a 32-bit \<open>size_t\<close>) and the
  plane, which only the \<open>default\<close> branch touches.
\<close>

definition pbuffer_switch ::
  "pixel_formats \<Rightarrow> int \<Rightarrow> nat \<Rightarrow> FGLPlane \<Rightarrow> nat \<times> FGLPlane" where
  "pbuffer_switch K f sz pb =
     (if f = FGL_PIXEL_FORMAT_A_8 K then ((sz * 1) mod 2 ^ 32, pb)
      else if f = FGL_PIXEL_FORMAT_RGB_565 K then ((sz * 2) mod 2 ^ 32, pb)
      else if f = FGL_PIXEL_FORMAT_RGBA_8888 K then ((sz * 4) mod 2 ^ 32, pb)
      else if f = FGL_PIXEL_FORMAT_RGBX_8888 K then ((sz * 4) mod 2 ^ 32, pb)
      else (sz, pb\<lparr>pl_data := 0\<rparr>))"

text \<open>
  The constructor. \<open>alloc\<close> is \<open>fimgAllocMemory\<close> as in \<open>hal\<close>, called first for the
  colour plane and then for the depth plane (the function of this source tree is
  \<open>fimgAllocMemory_unimplemented\<close>); \<open>raw\<close> holds the fields before they are
  initialised.
\<close>

definition FGLPbufferSurface_new ::
  "pixel_formats \<Rightarrow> (nat \<Rightarrow> nat \<Rightarrow> addr) \<Rightarrow> FGLPbufferSurface \<Rightarrow>
   int \<Rightarrow> int \<Rightarrow> int \<Rightarrow> int \<Rightarrow> FGLPbufferSurface" where
  "FGLPbufferSurface_new K alloc raw depthFormat w h f =
     (let s = raw\<lparr>pb_depth := (pb_depth raw)\<lparr>pl_version := sizeof_FGLPlane, pl_data := 0,
                                             pl_format := depthFormat\<rparr>\<rparr>;
          sz0 = u32 (int32 (w * h));
          (sz, pb) = pbuffer_switch K f sz0 (pbuffer s);
          pb = pb\<lparr>pl_version := sizeof_FGLPlane, pl_width := u32 w, pl_height := u32 h,
                  pl_stride := u32 w, pl_data := alloc 0 sz, pl_format := f\<rparr>;
          s = s\<lparr>pbuffer := pb\<rparr>
      in if depthFormat \<noteq> 0 then
           let dp = (pb_depth s)\<lparr>pl_width := pl_width pb, pl_height := pl_height pb,
                                 pl_stride := pl_width pb\<rparr>;
               a = alloc 1 ((pl_stride dp * pl_height dp * 4) mod 2 ^ 32)
           in (if a = 0 then s\<lparr>pb_depth := dp\<lparr>pl_data := a\<rparr>, pb_eglError := EGL_BAD_ALLOC\<rparr>
               else s\<lparr>pb_depth := dp\<lparr>pl_data := a\<rparr>\<rparr>)
         else s)"

definition initCheck :: "FGLPbufferSurface \<Rightarrow> bool" where
  "initCheck s = (pl_data (pbuffer s) \<noteq> 0)"

text \<open>
  Values for examples: a surface object before its constructor has run, a buffer of 128
  by 128 pixels at a given address, a wider buffer, and environments in which the
  buffer dequeued by the \<open>n\<close>-th call is the one at address \<open>n\<close>, every lock
  succeeds, \<open>getBpp\<close> is the function of this source tree, and the allocator
  succeeds or is the function of this source tree.
\<close>

definition raw_plane :: FGLPlane where
  "raw_plane = \<lparr>pl_version = 0, pl_width = 0, pl_height = 0, pl_stride = 0, pl_data = 0,
                 pl_format = 0\<rparr>"

definition raw_surface :: FGLWindowSurface where
  "raw_surface =
     \<lparr>depth = raw_plane, buffer = None, previousBuffer = None, blitengine = 0,
      width = 0, height = 0, bits = 0, dirtyRegion = Rect_ltrb 0 0 0 0,
      oldDirtyRegion = Rect_ltrb 0 0 0 0, eglError = EGL_SUCCESS, pixels = (\<lambda>a q. 0),
      trace = []\<rparr>"

definition buffer_at :: "nat \<Rightarrow> android_native_buffer_t" where
  "buffer_at p =
     \<lparr>nb_ptr = p, nb_width = 128, nb_height = 128, nb_stride = 128, nb_format = 4,
      nb_sw_base = None\<rparr>"

definition wide_buffer_at :: "nat \<Rightarrow> android_native_buffer_t" where
  "wide_buffer_at p =
     \<lparr>nb_ptr = p, nb_width = 256, nb_height = 128, nb_stride = 256, nb_format = 4,
      nb_sw_base = None\<rparr>"

definition hal_ok :: hal where
  "hal_ok = \<lparr>dequeueBuffer = (\<lambda>n. Some (buffer_at n)),
             module_lock = (\<lambda>n b. Some 4096),
             fimgAllocMemory = (\<lambda>n sz. 8192),
             getBpp = getBpp_unimplemented,
             copybit_blit = (\<lambda>n dstm srcm clip. (0, dstm))\<rparr>"

definition hal_wide_no_memory :: hal where
  "hal_wide_no_memory = \<lparr>dequeueBuffer = (\<lambda>n. Some (wide_buffer_at n)),
                         module_lock = (\<lambda>n b. Some 4096),
                         fimgAllocMemory = fimgAllocMemory_unimplemented,
                         getBpp = getBpp_unimplemented,
                         copybit_blit = (\<lambda>n dstm srcm clip. (0, dstm))\<rparr>"

text \<open>
  A connected surface with a depth plane at address 8192, in its second frame: the
  buffer at 2 is current, the buffer at 1 was presented before, the last frame redrew
  \<open>(0,0,100,100)\<close> and this frame asks for \<open>(0,0,50,100)\<close>.
\<close>

definition second_frame :: FGLWindowSurface where
  "second_frame =
     \<lparr>depth = \<lparr>pl_version = 24, pl_width = 128, pl_height = 128, pl_stride = 128,
               pl_data = 8192, pl_format = 1\<rparr>,
      buffer = Some (buffer_at 2), previousBuffer = Some (buffer_at 1), blitengine = 0,
      width = 128, height = 128, bits = 4096,
      dirtyRegion = Rect_ltrb 0 0 50 100, oldDirtyRegion = Rect_ltrb 0 0 100 100,
      eglError = EGL_SUCCESS, pixels = (\<lambda>a q. 0), trace = []\<rparr>"

text \<open>
  An environment in which a pixel has four bytes and the buffer at address \<open>n\<close> is
  mapped at \<open>1048576 * n\<close>; a buffer of 128 by 100 pixels; and the second frame of a
  surface whose current buffer is that one and whose previous buffer holds the byte 7
  everywhere, with an update rectangle that reaches beyond the current buffer on three
  sides.
\<close>

definition short_buffer_at :: "nat \<Rightarrow> android_native_buffer_t" where
  "short_buffer_at p =
     \<lparr>nb_ptr = p, nb_width = 128, nb_height = 100, nb_stride = 128, nb_format = 4,
      nb_sw_base = None\<rparr>"

definition hal_rgba :: hal where
  "hal_rgba = \<lparr>dequeueBuffer = (\<lambda>n. Some (buffer_at n)),
               module_lock = (\<lambda>n b. Some (1048576 * nb_ptr b)),
               fimgAllocMemory = (\<lambda>n sz. 8192),
               getBpp = (\<lambda>format. 4),
               copybit_blit = (\<lambda>n dstm srcm clip. (0, dstm))\<rparr>"

definition clipped_frame :: FGLWindowSurface where
  "clipped_frame =
     second_frame\<lparr>buffer := Some (short_buffer_at 2), bits := 2097152,
                    dirtyRegion := Rect_ltrb (- 5) (- 10) 50 200,
                    pixels := (\<lambda>a q. if a = 1048576 then 7 else 0)\<rparr>"

text \<open>
  The surface after a \<open>connect\<close> that dequeued the buffer at 1 and then failed to
  allocate the depth plane: \<open>buffer\<close> is set, no reference was taken and nothing
  is locked.
\<close>

definition failed_connect :: FGLWindowSurface where
  "failed_connect =
     raw_surface\<lparr>depth := \<lparr>pl_version = 24, pl_width = 256, pl_height = 128, pl_stride = 256,
                            pl_data = 0, pl_format = 1\<rparr>,
                  buffer := Some (wide_buffer_at 1), width := 256, height := 128,
                  eglError := EGL_BAD_ALLOC,
                  trace := [SetUsage, DequeueBuffer (Some (wide_buffer_at 1)),
                            AllocMemory 131072 0]\<rparr>"

text \<open>
  A pbuffer object before its constructor has run, with a stale pointer in the colour
  plane, and stand-in values for the four format constants.
\<close>

definition raw_pbuffer :: FGLPbufferSurface where
  "raw_pbuffer =
     \<lparr>pb_depth = raw_plane, pbuffer = raw_plane\<lparr>pl_data := 57005\<rparr>,
      pb_eglError = EGL_SUCCESS\<rparr>"

definition example_formats :: pixel_formats where
  "example_formats =
     \<lparr>FGL_PIXEL_FORMAT_A_8 = 8, FGL_PIXEL_FORMAT_RGB_565 = 4,
      FGL_PIXEL_FORMAT_RGBA_8888 = 1, FGL_PIXEL_FORMAT_RGBX_8888 = 2\<rparr>"

chapter \<open>Properties\<close>

section \<open>Region subtraction\<close>

lemma replicate4: "replicate 4 x = [x, x, x, x]"
  by (simp add: numeral_eq_Suc)

lemma max_T_eq: "max_T a b = max a b"
  by (simp add: max_T_def max_def)

lemma min_T_eq: "min_T a b = min a b"
  by (simp add: min_T_def min_def)

lemma subtract_total:
  "\<exists>reg. subtract lhs rhs = Some reg \<and> region_rects reg = Some (subtract_spec lhs rhs)
      \<and> rg_count reg = int (length (subtract_spec lhs rhs)) \<and> length (rg_storage reg) = 4"
  by (simp add: subtract_def subtract_spec_def Let_def put_rect_def Region_init_def
      region_rects_def replicate4 max_T_eq min_T_eq Rect_ltrb_def)

lemma subtract_rects_spec: "subtract_rects lhs rhs = Some (subtract_spec lhs rhs)"
  using subtract_total [of lhs rhs] by (auto simp: subtract_rects_def)

lemma length_subtract_spec: "length (subtract_spec lhs rhs) \<le> 4"
  by (simp add: subtract_spec_def)

lemma subtract_spec_empty: "isEmpty lhs \<Longrightarrow> subtract_spec lhs rhs = []"
  by (simp add: subtract_spec_def)

lemma intersect_reaches: "\<not> isEmpty (andSelf a b) \<Longrightarrow> reaches a b"
  by (auto simp: isEmpty_def andSelf_def reaches_def max_T_eq min_T_eq)

lemma spec_covers_lhs:
  "covers a x y \<Longrightarrow> covered (subtract_spec a b) x y \<or> covers (andSelf a b) x y"
  by (auto simp: subtract_spec_def covered_def covers_def andSelf_def isEmpty_def
      Rect_ltrb_def max_T_eq min_T_eq)

lemma spec_avoids_rhs: "covered (subtract_spec a b) x y \<Longrightarrow> \<not> covers b x y"
  by (auto simp: subtract_spec_def covered_def covers_def isEmpty_def Rect_ltrb_def
      split: if_splits)

lemma spec_inside_lhs:
  "isEmpty a \<or> reaches a b \<Longrightarrow> covered (subtract_spec a b) x y \<Longrightarrow> covers a x y"
  by (auto simp: subtract_spec_def covered_def covers_def isEmpty_def Rect_ltrb_def reaches_def
      split: if_splits)

lemma intersect_inside_lhs: "covers (andSelf a b) x y \<Longrightarrow> covers a x y"
  by (auto simp: covers_def andSelf_def max_T_eq min_T_eq)

lemma spec_nonempty:
  "\<not> isEmpty a \<Longrightarrow> isEmpty (andSelf a b) \<Longrightarrow> subtract_spec a b \<noteq> []"
  by (auto simp: subtract_spec_def isEmpty_def andSelf_def max_T_eq min_T_eq)

text \<open>
  Claim C1. For every pair of rectangles, the rectangles of \<open>subtract(lhs, rhs)\<close> are,
  in this order and under these guards: the strip of \<open>lhs\<close> above the top edge of
  \<open>rhs\<close> (iff \<open>lhs.top < rhs.top\<close>); inside the band from \<open>max(lhs.top, rhs.top)\<close> to
  \<open>min(lhs.bottom, rhs.bottom)\<close>, when it is not empty, the strip left of
  \<open>rhs.left\<close> (iff \<open>lhs.left < rhs.left\<close>) and the strip right of \<open>rhs.right\<close>
  (iff \<open>lhs.right > rhs.right\<close>); the strip below the bottom edge of \<open>rhs\<close>
  (iff \<open>lhs.bottom > rhs.bottom\<close>). When \<open>lhs\<close> is empty the region is empty.
\<close>

theorem subtract_order:
  "subtract_rects lhs rhs = Some (subtract_spec lhs rhs) \<and>
   (isEmpty lhs \<longrightarrow> (\<exists>reg. subtract lhs rhs = Some reg \<and> Region_isEmpty reg))"
proof -
  obtain reg where reg: "subtract lhs rhs = Some reg"
    "rg_count reg = int (length (subtract_spec lhs rhs))"
    using subtract_total [of lhs rhs] by blast
  then have "isEmpty lhs \<longrightarrow> Region_isEmpty reg"
    by (simp add: Region_isEmpty_def subtract_spec_empty)
  with reg show ?thesis by (simp add: subtract_rects_spec)
qed

theorem subtract_order_witness:
  "isEmpty (Rect_ltrb 5 0 5 10) \<and>
   subtract_rects (Rect_ltrb 5 0 5 10) (Rect_ltrb 0 0 3 3) = Some [] \<and>
   (\<exists>reg. subtract (Rect_ltrb 5 0 5 10) (Rect_ltrb 0 0 3 3) = Some reg \<and> Region_isEmpty reg)"
  using subtract_order [of "Rect_ltrb 5 0 5 10" "Rect_ltrb 0 0 3 3"]
  by (simp add: isEmpty_def Rect_ltrb_def subtract_spec_def)

text \<open>All four strips, in order, for a rectangle strictly inside another.\<close>

lemma subtract_four_strips:
  "subtract_rects (Rect_ltrb 0 0 10 10) (Rect_ltrb 2 3 6 7) =
     Some [Rect_ltrb 0 0 10 3, Rect_ltrb 0 3 2 7, Rect_ltrb 6 3 10 7, Rect_ltrb 0 7 10 10]"
  by (simp add: subtract_rects_spec subtract_spec_def isEmpty_def Rect_ltrb_def)

text \<open>
  Claim C6. \<open>subtract\<close> writes at most 4 rectangles: no write falls outside the array
  of 4 slots (the result is never the fault), and the count of the region is between 0
  and 4.
\<close>

theorem subtract_capacity:
  "\<exists>reg. subtract lhs rhs = Some reg \<and> length (rg_storage reg) = 4 \<and>
         0 \<le> rg_count reg \<and> rg_count reg \<le> 4"
proof -
  obtain reg where reg: "subtract lhs rhs = Some reg" "length (rg_storage reg) = 4"
    "rg_count reg = int (length (subtract_spec lhs rhs))"
    using subtract_total [of lhs rhs] by blast
  moreover have "rg_count reg \<le> 4"
    using length_subtract_spec [of lhs rhs] by (simp add: reg(3))
  ultimately show ?thesis by simp
qed

text \<open>
  Claim C2, as stated, fails: for \<open>a = (0,0,10,10)\<close> and \<open>b = (0,20,10,30)\<close>, below
  \<open>a\<close> and apart from it, the only rectangle returned is \<open>(0,0,10,20)\<close>, which covers
  the pixel \<open>(0,15)\<close> outside \<open>a\<close>.
\<close>

theorem subtract_cover_counterexample:
  "subtract_rects (Rect_ltrb 0 0 10 10) (Rect_ltrb 0 20 10 30) = Some [Rect_ltrb 0 0 10 20] \<and>
   covered [Rect_ltrb 0 0 10 20] 0 15 \<and>
   \<not> covers (Rect_ltrb 0 0 10 10) 0 15"
  by (simp add: subtract_rects_spec subtract_spec_def isEmpty_def Rect_ltrb_def
      covered_def covers_def)

text \<open>
  Claim C2, amended. For every pair of rectangles \<open>a\<close> and \<open>b\<close>: every pixel of \<open>a\<close>
  is covered by a rectangle of \<open>subtract(a, b)\<close> or by the intersection of \<open>a\<close> and
  \<open>b\<close>; no rectangle of \<open>subtract(a, b)\<close> overlaps \<open>b\<close>; and when \<open>a\<close> is empty or
  \<open>b\<close> reaches \<open>a\<close>, which includes every pair that intersects, the rectangles of
  \<open>subtract(a, b)\<close> together with the intersection cover exactly the pixels of \<open>a\<close>.
\<close>

theorem subtract_cover:
  "\<exists>rs. subtract_rects a b = Some rs \<and>
     (\<forall>x y. covers a x y \<longrightarrow> covered rs x y \<or> covers (andSelf a b) x y) \<and>
     (\<forall>x y. covered rs x y \<longrightarrow> \<not> covers b x y) \<and>
     (isEmpty a \<or> reaches a b \<or> \<not> isEmpty (andSelf a b) \<longrightarrow>
        (\<forall>x y. (covered rs x y \<or> covers (andSelf a b) x y) = covers a x y))"
proof -
  have "isEmpty a \<or> reaches a b"
    if "isEmpty a \<or> reaches a b \<or> \<not> isEmpty (andSelf a b)"
    using that intersect_reaches [of a b] by blast
  then have "(covered (subtract_spec a b) x y \<or> covers (andSelf a b) x y) = covers a x y"
    if "isEmpty a \<or> reaches a b \<or> \<not> isEmpty (andSelf a b)" for x y
    using that spec_inside_lhs [of a b x y] intersect_inside_lhs [of a b x y]
      spec_covers_lhs [of a x y b] by blast
  then show ?thesis
    using spec_covers_lhs [of a _ _ b] spec_avoids_rhs [of a b]
    by (simp add: subtract_rects_spec)
qed

theorem subtract_cover_witness:
  "reaches (Rect_ltrb 0 0 10 10) (Rect_ltrb 2 3 6 7) \<and>
   covers (Rect_ltrb 0 0 10 10) 1 5 \<and> \<not> covers (Rect_ltrb 2 3 6 7) 1 5 \<and>
   (\<exists>rs. subtract_rects (Rect_ltrb 0 0 10 10) (Rect_ltrb 2 3 6 7) = Some rs \<and>
         covered rs 1 5 \<and>
         (covered rs 4 4 \<or> covers (andSelf (Rect_ltrb 0 0 10 10) (Rect_ltrb 2 3 6 7)) 4 4) =
           covers (Rect_ltrb 0 0 10 10) 4 4)"
proof -
  have r: "reaches (Rect_ltrb 0 0 10 10) (Rect_ltrb 2 3 6 7)"
    by (simp add: reaches_def Rect_ltrb_def)
  have c: "covers (Rect_ltrb 0 0 10 10) 1 5" "\<not> covers (Rect_ltrb 2 3 6 7) 1 5"
    "\<not> covers (andSelf (Rect_ltrb 0 0 10 10) (Rect_ltrb 2 3 6 7)) 1 5"
    by (simp_all add: covers_def Rect_ltrb_def andSelf_def max_T_def min_T_def)
  from subtract_cover [of "Rect_ltrb 0 0 10 10" "Rect_ltrb 2 3 6 7"] r c
  show ?thesis by blast
qed

text \<open>
  Claim C5, as stated, fails: \<open>a = (0,0,10,10)\<close> and \<open>b = (0,20,10,30)\<close> do not
  intersect and \<open>a\<close> is not empty, but \<open>subtract(a, b)\<close> is \<open>{(0,0,10,20)}\<close>, not
  \<open>{a}\<close>.
\<close>

theorem subtract_disjoint_counterexample:
  "isEmpty (andSelf (Rect_ltrb 0 0 10 10) (Rect_ltrb 0 20 10 30)) \<and>
   \<not> isEmpty (Rect_ltrb 0 0 10 10) \<and>
   subtract_rects (Rect_ltrb 0 0 10 10) (Rect_ltrb 0 20 10 30) = Some [Rect_ltrb 0 0 10 20] \<and>
   [Rect_ltrb 0 0 10 20] \<noteq> [Rect_ltrb 0 0 10 10]"
  by (simp add: subtract_rects_spec subtract_spec_def isEmpty_def Rect_ltrb_def andSelf_def
      max_T_def min_T_def)

text \<open>
  Claim C5, amended. For every pair of rectangles \<open>a\<close> and \<open>b\<close> that do not
  intersect: \<open>subtract(a, b)\<close> is empty if \<open>a\<close> is empty; otherwise it is not empty,
  its rectangles cover every pixel of \<open>a\<close>, and none of them overlaps \<open>b\<close>. (A strip
  runs up to the edge of \<open>b\<close>, so the result need not be the single rectangle \<open>a\<close>.)
\<close>

theorem subtract_disjoint:
  assumes "isEmpty (andSelf a b)"
  shows "\<exists>rs. subtract_rects a b = Some rs \<and>
     (isEmpty a \<longrightarrow> rs = []) \<and>
     (\<not> isEmpty a \<longrightarrow> rs \<noteq> [] \<and> (\<forall>x y. covers a x y \<longrightarrow> covered rs x y) \<and>
        (\<forall>x y. covered rs x y \<longrightarrow> \<not> covers b x y))"
proof -
  have "\<not> covers (andSelf a b) x y" for x y
    using assms by (auto simp: covers_def isEmpty_def)
  then have "covers a x y \<longrightarrow> covered (subtract_spec a b) x y" for x y
    using spec_covers_lhs [of a x y b] by blast
  then show ?thesis
    using assms spec_nonempty [of a b] spec_avoids_rhs [of a b] subtract_spec_empty [of a b]
    by (simp add: subtract_rects_spec)
qed

theorem subtract_disjoint_witness:
  "isEmpty (andSelf (Rect_ltrb 0 0 10 10) (Rect_ltrb 20 0 30 10)) \<and>
   \<not> isEmpty (Rect_ltrb 0 0 10 10) \<and> covers (Rect_ltrb 0 0 10 10) 3 3 \<and>
   (\<exists>rs. subtract_rects (Rect_ltrb 0 0 10 10) (Rect_ltrb 20 0 30 10) = Some rs \<and>
         rs \<noteq> [] \<and> covered rs 3 3 \<and> \<not> covers (Rect_ltrb 20 0 30 10) 3 3)"
proof -
  have e: "isEmpty (andSelf (Rect_ltrb 0 0 10 10) (Rect_ltrb 20 0 30 10))"
    "\<not> isEmpty (Rect_ltrb 0 0 10 10)"
    by (simp_all add: isEmpty_def andSelf_def Rect_ltrb_def max_T_def min_T_def)
  have c: "covers (Rect_ltrb 0 0 10 10) 3 3"
    by (simp add: covers_def Rect_ltrb_def)
  from subtract_disjoint [OF e(1)] e(2) c show ?thesis
    using e(1) by blast
qed

section \<open>Manual pixel copy\<close>

declare memcpy_loop.simps [simp del]

lemma int32_id: "- (2 ^ 31) \<le> x \<Longrightarrow> x < 2 ^ 31 \<Longrightarrow> int32 x = x"
  by (simp add: int32_def)

lemma memcpy_loop_once: "h \<le> 1 \<Longrightarrow> memcpy_loop d s sz dbpr sbpr h = [(d, s, sz)]"
  by (subst memcpy_loop.simps) simp

lemma memcpy_loop_step:
  "1 < h \<Longrightarrow> memcpy_loop d s sz dbpr sbpr h =
     (d, s, sz) # memcpy_loop ((d + dbpr) mod 2 ^ 32) ((s + sbpr) mod 2 ^ 32) sz dbpr sbpr (h - 1)"
  by (subst memcpy_loop.simps) simp

lemma memcpy_loop_rows:
  "memcpy_loop (d mod 2 ^ 32) (s mod 2 ^ 32) sz dbpr sbpr (int (Suc n)) =
     map (\<lambda>i. ((d + int i * dbpr) mod 2 ^ 32, (s + int i * sbpr) mod 2 ^ 32, sz)) [0 ..< Suc n]"
proof (induction n arbitrary: d s)
  case 0
  show ?case by (simp add: memcpy_loop_once)
next
  case (Suc n)
  have "memcpy_loop (d mod 2 ^ 32) (s mod 2 ^ 32) sz dbpr sbpr (int (Suc (Suc n))) =
          (d mod 2 ^ 32, s mod 2 ^ 32, sz) #
          memcpy_loop ((d + dbpr) mod 2 ^ 32) ((s + sbpr) mod 2 ^ 32) sz dbpr sbpr (int (Suc n))"
    by (subst memcpy_loop_step) (simp_all add: mod_add_left_eq)
  also have "\<dots> = (d mod 2 ^ 32, s mod 2 ^ 32, sz) #
      map (\<lambda>i. ((d + dbpr + int i * dbpr) mod 2 ^ 32, (s + sbpr + int i * sbpr) mod 2 ^ 32, sz))
        [0 ..< Suc n]"
    by (simp only: Suc.IH)
  also have "\<dots> =
      map (\<lambda>i. ((d + int i * dbpr) mod 2 ^ 32, (s + int i * sbpr) mod 2 ^ 32, sz))
        [0 ..< Suc (Suc n)]"
    by (simp add: upt_conv_Cons [of 0] map_Suc_upt [symmetric] algebra_simps del: upt_Suc)
  finally show ?case .
qed

lemma memcpy_noop: "n \<le> 0 \<Longrightarrow> memcpy dstm srcm (d, s, n) = dstm"
  by (rule ext) (auto simp: memcpy_def)

lemma memcpy_adjoin:
  "0 \<le> P \<Longrightarrow> 0 \<le> Q \<Longrightarrow>
   memcpy (memcpy dstm srcm (d, s, Q)) srcm (d + Q, s + Q, P) = memcpy dstm srcm (d, s, Q + P)"
  by (rule ext) (auto simp: memcpy_def)

lemma run_rows_contiguous:
  "0 \<le> P \<Longrightarrow>
   run_memcpy dstm srcm (map (\<lambda>i. (d + int i * P, s + int i * P, P)) [0 ..< n]) =
   memcpy dstm srcm (d, s, P * int n)"
proof (induction n)
  case 0
  show ?case by (simp add: run_memcpy_def memcpy_noop)
next
  case (Suc n)
  have Q: "0 \<le> int n * P" using Suc.prems by simp
  have "run_memcpy dstm srcm (map (\<lambda>i. (d + int i * P, s + int i * P, P)) [0 ..< Suc n]) =
        memcpy (memcpy dstm srcm (d, s, int n * P)) srcm (d + int n * P, s + int n * P, P)"
    using Suc by (simp add: run_memcpy_def mult.commute)
  also have "\<dots> = memcpy dstm srcm (d, s, int n * P + P)"
    using Suc.prems Q by (rule memcpy_adjoin)
  also have "int n * P + P = P * int (Suc n)" by (simp add: algebra_simps)
  finally show ?case .
qed


lemma written_map:
  "written (map (\<lambda>i. (f i, g i, sz)) [0 ..< n]) = (\<Union>i \<in> {0 ..< n}. {f i ..< f i + sz})"
  by (auto simp: written_def)


lemma rect_bytes_rows:
  "rect_bytes bpp stride r =
     (\<Union>i \<in> {0 ..< nat (r_bottom r - r_top r)}.
        {(r_left r + stride * r_top r) * int bpp + int i * (stride * int bpp) ..<
         (r_left r + stride * r_top r) * int bpp + int i * (stride * int bpp) +
           (r_right r - r_left r) * int bpp})"
  (is "?L = ?R")
proof (rule set_eqI)
  fix a
  define B where "B = int bpp"
  show "a \<in> ?L \<longleftrightarrow> a \<in> ?R"
  proof
    assume "a \<in> ?L"
    then obtain y where y: "r_top r \<le> y" "y < r_bottom r"
      "(r_left r + stride * y) * B \<le> a" "a < (r_right r + stride * y) * B"
      by (auto simp: rect_bytes_def B_def)
    let ?i = "nat (y - r_top r)"
    have i: "?i < nat (r_bottom r - r_top r)" "int ?i = y - r_top r" using y by auto
    have "int ?i * (stride * B) = (y - r_top r) * (stride * B)" by (simp only: i(2))
    then have "(r_left r + stride * r_top r) * B + int ?i * (stride * B) = (r_left r + stride * y) * B"
      by (simp add: algebra_simps)
    moreover have "(r_left r + stride * y) * B + (r_right r - r_left r) * B = (r_right r + stride * y) * B"
      by (simp add: algebra_simps)
    ultimately show "a \<in> ?R" using y i(1) unfolding B_def by (auto intro!: bexI [of _ ?i])
  next
    assume "a \<in> ?R"
    then obtain i where i: "i < nat (r_bottom r - r_top r)"
      "(r_left r + stride * r_top r) * B + int i * (stride * B) \<le> a"
      "a < (r_left r + stride * r_top r) * B + int i * (stride * B) + (r_right r - r_left r) * B"
      by (auto simp: B_def)
    let ?y = "r_top r + int i"
    have "(r_left r + stride * r_top r) * B + int i * (stride * B) = (r_left r + stride * ?y) * B"
      by (simp add: algebra_simps)
    moreover have "(r_left r + stride * ?y) * B + (r_right r - r_left r) * B = (r_right r + stride * ?y) * B"
      by (simp add: algebra_simps)
    moreover have "r_top r \<le> ?y" "?y < r_bottom r" using i(1) by auto
    ultimately show "a \<in> ?L" using i(2,3) unfolding rect_bytes_def B_def by (auto intro!: bexI [of _ ?y])
  qed
qed

lemma rect_bytes_empty:
  assumes "\<not> (0 < r_right r - r_left r \<and> 0 < r_bottom r - r_top r)"
  shows "rect_bytes bpp stride r = {}"
proof (cases "0 < r_bottom r - r_top r")
  case False
  then show ?thesis by (simp add: rect_bytes_def)
next
  case True
  with assms have le: "r_right r \<le> r_left r" by simp
  have "(r_right r + stride * y) * int bpp \<le> (r_left r + stride * y) * int bpp" for y
    using le by (intro mult_right_mono) simp_all
  then show ?thesis by (simp add: rect_bytes_def)
qed

lemma written_append: "written (xs @ ys) = written xs \<union> written ys"
  by (auto simp: written_def)



text \<open>Inside the buffers no sum, difference or product leaves the machine range.\<close>

lemma fits_row:
  assumes "fits bpp ds ss rows r" "r_top r \<le> y" "y < r_bottom r"
  shows "0 \<le> (r_left r + ds * y) * int bpp" "(r_right r + ds * y) * int bpp < 2 ^ 31"
    "0 \<le> (r_left r + ss * y) * int bpp" "(r_right r + ss * y) * int bpp < 2 ^ 31"
proof -
  have b: "0 \<le> int bpp" by simp
  have y: "0 \<le> y" "y + 1 \<le> rows" using assms by (auto simp: fits_def)
  have bound: "(r_right r + st * y) * int bpp < 2 ^ 31" "0 \<le> (r_left r + st * y) * int bpp"
    if st: "r_right r \<le> st" "st * rows * int bpp < 2 ^ 31" for st
  proof -
    have st0: "0 \<le> st" using st(1) assms(1) by (auto simp: fits_def)
    have "st * (y + 1) \<le> st * rows" using st0 y by (intro mult_left_mono) simp_all
    moreover have "r_right r + st * y \<le> st * (y + 1)" using st(1) by (simp add: algebra_simps)
    ultimately have "r_right r + st * y \<le> st * rows" by linarith
    then have "(r_right r + st * y) * int bpp \<le> st * rows * int bpp"
      using b by (intro mult_right_mono) simp_all
    then show "(r_right r + st * y) * int bpp < 2 ^ 31" using st(2) by linarith
    have "0 \<le> st * y" using st0 y by simp
    moreover have "0 \<le> r_left r" using assms(1) by (simp add: fits_def)
    ultimately show "0 \<le> (r_left r + st * y) * int bpp" by simp
  qed
  show "0 \<le> (r_left r + ds * y) * int bpp" "(r_right r + ds * y) * int bpp < 2 ^ 31"
    using bound [of ds] assms(1) by (simp_all add: fits_def)
  show "0 \<le> (r_left r + ss * y) * int bpp" "(r_right r + ss * y) * int bpp < 2 ^ 31"
    using bound [of ss] assms(1) by (simp_all add: fits_def)
qed

lemma fits_extent:
  assumes "fits bpp ds ss rows r"
  shows "int32 (r_right r - r_left r) = r_right r - r_left r"
    and "int32 (r_bottom r - r_top r) = r_bottom r - r_top r"
  using assms by (auto simp: fits_def intro!: int32_id)

lemma fits_pitch:
  assumes "fits bpp ds ss rows r" "r_top r < r_bottom r"
  shows "(ds * int bpp) mod 2 ^ 32 = ds * int bpp" "(ss * int bpp) mod 2 ^ 32 = ss * int bpp"
    "0 \<le> ds * int bpp" "0 \<le> ss * int bpp" "ds * int bpp < 2 ^ 31" "ss * int bpp < 2 ^ 31"
proof -
  have rows: "1 \<le> rows" using assms by (auto simp: fits_def)
  have pitch: "0 \<le> st * int bpp \<and> st * int bpp < 2 ^ 31"
    if st: "r_right r \<le> st" "st * rows * int bpp < 2 ^ 31" for st
  proof -
    have st0: "0 \<le> st" using st(1) assms(1) by (auto simp: fits_def)
    then have "st * 1 \<le> st * rows" using rows by (intro mult_left_mono) simp_all
    then have "st * int bpp \<le> st * rows * int bpp" by (intro mult_right_mono) simp_all
    with st(2) st0 show ?thesis by simp
  qed
  have d: "0 \<le> ds * int bpp \<and> ds * int bpp < 2 ^ 31"
    using pitch [of ds] assms(1) by (simp add: fits_def)
  have s: "0 \<le> ss * int bpp \<and> ss * int bpp < 2 ^ 31"
    using pitch [of ss] assms(1) by (simp add: fits_def)
  show "(ds * int bpp) mod 2 ^ 32 = ds * int bpp" "0 \<le> ds * int bpp" "ds * int bpp < 2 ^ 31"
    using d by simp_all
  show "(ss * int bpp) mod 2 ^ 32 = ss * int bpp" "0 \<le> ss * int bpp" "ss * int bpp < 2 ^ 31"
    using s by simp_all
qed

lemma fits_size:
  assumes "fits bpp ds ss rows r" "r_top r < r_bottom r"
  shows "((r_right r - r_left r) * int bpp) mod 2 ^ 32 = (r_right r - r_left r) * int bpp"
    and "((r_right r - r_left r) * int bpp * (r_bottom r - r_top r)) mod 2 ^ 32 =
         (r_right r - r_left r) * int bpp * (r_bottom r - r_top r)"
proof -
  let ?w = "r_right r - r_left r" and ?h = "r_bottom r - r_top r"
  have w: "0 \<le> ?w" "?w \<le> ds" and h: "0 \<le> ?h" "?h \<le> rows" and ds: "0 \<le> ds"
    using assms by (auto simp: fits_def)
  have "?w * int bpp \<le> ds * int bpp" using w by (intro mult_right_mono) simp_all
  moreover have wb: "0 \<le> ?w * int bpp" using w by simp
  moreover have "ds * int bpp < 2 ^ 31"
    by (rule fits_pitch(5) [OF assms])
  ultimately show "(?w * int bpp) mod 2 ^ 32 = ?w * int bpp" by simp
  have "?w * int bpp * ?h \<le> ds * int bpp * rows"
    using w h ds by (intro mult_mono) simp_all
  moreover have "ds * int bpp * rows < 2 ^ 31"
    using assms(1) by (simp add: fits_def mult.commute mult.left_commute)
  moreover have "0 \<le> ?w * int bpp * ?h" using wb h by simp
  ultimately show "(?w * int bpp * ?h) mod 2 ^ 32 = ?w * int bpp * ?h" by simp
qed

lemma copy_rect_by_rows_map:
  assumes "fits bpp ds ss rows r" "0 < r_right r - r_left r" "0 < r_bottom r - r_top r"
  shows "copy_rect_by_rows bpp ds ss r =
     map (\<lambda>i. ((r_left r + ds * r_top r) * int bpp + int i * (ds * int bpp),
                (r_left r + ss * r_top r) * int bpp + int i * (ss * int bpp),
                (r_right r - r_left r) * int bpp))
       [0 ..< nat (r_bottom r - r_top r)]"
proof -
  let ?D = "(r_left r + ds * r_top r) * int bpp" and ?S = "(r_left r + ss * r_top r) * int bpp"
  have tb: "r_top r < r_bottom r" using assms(3) by simp
  obtain n where n: "r_bottom r - r_top r = int (Suc n)"
    using assms(3) by (metis Suc_pred' of_nat_0_less_iff pos_int_cases)
  have row: "(?D + int i * (ds * int bpp)) mod 2 ^ 32 = ?D + int i * (ds * int bpp) \<and>
             (?S + int i * (ss * int bpp)) mod 2 ^ 32 = ?S + int i * (ss * int bpp)"
    if "i < Suc n" for i
  proof -
    let ?y = "r_top r + int i"
    have y: "r_top r \<le> ?y" "?y < r_bottom r" using that n by simp_all
    have eq: "?D + int i * (ds * int bpp) = (r_left r + ds * ?y) * int bpp"
      "?S + int i * (ss * int bpp) = (r_left r + ss * ?y) * int bpp"
      by (simp_all add: algebra_simps)
    have le: "(r_left r + ds * ?y) * int bpp \<le> (r_right r + ds * ?y) * int bpp"
      "(r_left r + ss * ?y) * int bpp \<le> (r_right r + ss * ?y) * int bpp"
      using assms(2) by (simp_all add: mult_right_mono)
    have p: "(2::int) ^ 31 < 2 ^ 32" by simp
    have "0 \<le> (r_left r + ds * ?y) * int bpp \<and> (r_left r + ds * ?y) * int bpp < 2 ^ 32"
      using fits_row(1,2) [OF assms(1) y] le(1) p by linarith
    moreover have "0 \<le> (r_left r + ss * ?y) * int bpp \<and> (r_left r + ss * ?y) * int bpp < 2 ^ 32"
      using fits_row(3,4) [OF assms(1) y] le(2) p by linarith
    ultimately show ?thesis unfolding eq by simp
  qed
  have "copy_rect_by_rows bpp ds ss r =
      memcpy_loop (?D mod 2 ^ 32) (?S mod 2 ^ 32) ((r_right r - r_left r) * int bpp)
        (ds * int bpp) (ss * int bpp) (int (Suc n))"
    unfolding copy_rect_by_rows_def Let_def fits_extent [OF assms(1)]
        fits_pitch(1,2) [OF assms(1) tb] fits_size [OF assms(1) tb]
    using assms(2,3) by (simp add: n del: of_nat_Suc)
  also have "\<dots> = map (\<lambda>i. ((?D + int i * (ds * int bpp)) mod 2 ^ 32,
                             (?S + int i * (ss * int bpp)) mod 2 ^ 32,
                             (r_right r - r_left r) * int bpp)) [0 ..< Suc n]"
    by (rule memcpy_loop_rows)
  also have "\<dots> = map (\<lambda>i. (?D + int i * (ds * int bpp), ?S + int i * (ss * int bpp),
                             (r_right r - r_left r) * int bpp)) [0 ..< Suc n]"
  proof (rule map_cong [OF refl])
    fix i assume "i \<in> set [0 ..< Suc n]"
    then have "i < Suc n" by (simp del: upt_Suc)
    from row [OF this]
    show "((?D + int i * (ds * int bpp)) mod 2 ^ 32, (?S + int i * (ss * int bpp)) mod 2 ^ 32,
           (r_right r - r_left r) * int bpp) =
          (?D + int i * (ds * int bpp), ?S + int i * (ss * int bpp),
           (r_right r - r_left r) * int bpp)"
      by (simp only:)
  qed
  finally show ?thesis by (simp add: n del: upt_Suc of_nat_Suc)
qed

lemma copy_rect_collapsed:
  assumes "fits bpp ds ss rows r" "0 < r_right r - r_left r" "0 < r_bottom r - r_top r"
    and "ds * int bpp = ss * int bpp" "(r_right r - r_left r) * int bpp = ss * int bpp"
  shows "copy_rect bpp ds ss r =
     [((r_left r + ds * r_top r) * int bpp, (r_left r + ss * r_top r) * int bpp,
       (r_right r - r_left r) * int bpp * (r_bottom r - r_top r))]"
proof -
  have tb: "r_top r < r_bottom r" using assms(3) by simp
  have y: "r_top r \<le> r_top r" by simp
  have le: "(r_left r + ds * r_top r) * int bpp \<le> (r_right r + ds * r_top r) * int bpp"
    "(r_left r + ss * r_top r) * int bpp \<le> (r_right r + ss * r_top r) * int bpp"
    using assms(2) by (simp_all add: mult_right_mono)
  have d: "((r_left r + ds * r_top r) * int bpp) mod 2 ^ 32 = (r_left r + ds * r_top r) * int bpp"
    using fits_row(1,2) [OF assms(1) y tb] le(1) by simp
  have s: "((r_left r + ss * r_top r) * int bpp) mod 2 ^ 32 = (r_left r + ss * r_top r) * int bpp"
    using fits_row(3,4) [OF assms(1) y tb] le(2) by simp
  show ?thesis
    unfolding copy_rect_def Let_def fits_extent [OF assms(1)] fits_pitch(1,2) [OF assms(1) tb]
        fits_size [OF assms(1) tb] d s
    using assms(2-5) by (simp add: memcpy_loop_once)
qed

lemma copy_rect_rowwise:
  assumes "fits bpp ds ss rows r" "0 < r_right r - r_left r" "0 < r_bottom r - r_top r"
    and "\<not> (ds * int bpp = ss * int bpp \<and> (r_right r - r_left r) * int bpp = ss * int bpp)"
  shows "copy_rect bpp ds ss r = copy_rect_by_rows bpp ds ss r"
proof -
  have tb: "r_top r < r_bottom r" using assms(3) by simp
  show ?thesis
    unfolding copy_rect_def copy_rect_by_rows_def Let_def fits_extent [OF assms(1)]
        fits_pitch(1,2) [OF assms(1) tb] fits_size [OF assms(1) tb]
    using assms(2-4) by auto
qed

lemma copy_rect_nothing:
  assumes "fits bpp ds ss rows r" "\<not> (0 < r_right r - r_left r \<and> 0 < r_bottom r - r_top r)"
  shows "copy_rect bpp ds ss r = []" "copy_rect_by_rows bpp ds ss r = []"
  using assms(2)
  by (auto simp: copy_rect_def copy_rect_by_rows_def Let_def fits_extent [OF assms(1)])

lemma written_by_rows:
  assumes "fits bpp ds ss rows r"
  shows "written (copy_rect_by_rows bpp ds ss r) = rect_bytes bpp ds r"
proof (cases "0 < r_right r - r_left r \<and> 0 < r_bottom r - r_top r")
  case True
  then show ?thesis
    by (simp add: copy_rect_by_rows_map [OF assms] written_map rect_bytes_rows del: upt_Suc)
next
  case False
  then show ?thesis
    by (simp add: rect_bytes_empty copy_rect_nothing [OF assms] written_def)
qed


lemma collapsed_same_memory:
  assumes "fits bpp ds ss rows r" "0 < r_right r - r_left r" "0 < r_bottom r - r_top r"
    and "ds * int bpp = ss * int bpp" "(r_right r - r_left r) * int bpp = ss * int bpp"
  shows "run_memcpy dstm srcm (copy_rect bpp ds ss r) =
         run_memcpy dstm srcm (copy_rect_by_rows bpp ds ss r)"
proof -
  define P where "P = (r_right r - r_left r) * int bpp"
  have P: "0 \<le> P" using assms(2) by (simp add: P_def)
  have pitch: "ds * int bpp = P" "ss * int bpp = P" by (simp_all only: P_def assms(4) assms(5))
  have h: "int (nat (r_bottom r - r_top r)) = r_bottom r - r_top r" using assms(3) by simp
  have "run_memcpy dstm srcm (copy_rect_by_rows bpp ds ss r) =
        memcpy dstm srcm ((r_left r + ds * r_top r) * int bpp, (r_left r + ss * r_top r) * int bpp,
                          P * int (nat (r_bottom r - r_top r)))"
    using P
    by (simp only: copy_rect_by_rows_map [OF assms(1-3)] pitch P_def [symmetric]
        run_rows_contiguous)
  moreover have "run_memcpy dstm srcm (copy_rect bpp ds ss r) =
        memcpy dstm srcm ((r_left r + ds * r_top r) * int bpp, (r_left r + ss * r_top r) * int bpp,
                          P * (r_bottom r - r_top r))"
    by (simp add: copy_rect_collapsed [OF assms] run_memcpy_def P_def)
  ultimately show ?thesis by (simp only: h)
qed

lemma copy_rect_same_memory:
  assumes "fits bpp ds ss rows r"
  shows "run_memcpy dstm srcm (copy_rect bpp ds ss r) =
         run_memcpy dstm srcm (copy_rect_by_rows bpp ds ss r)"
proof (cases "0 < r_right r - r_left r \<and> 0 < r_bottom r - r_top r")
  case False
  then show ?thesis by (simp add: copy_rect_nothing [OF assms])
next
  case True
  show ?thesis
  proof (cases "ds * int bpp = ss * int bpp \<and> (r_right r - r_left r) * int bpp = ss * int bpp")
    case True
    with \<open>0 < r_right r - r_left r \<and> 0 < r_bottom r - r_top r\<close> show ?thesis
      by (simp add: collapsed_same_memory [OF assms])
  next
    case False
    with True show ?thesis by (simp add: copy_rect_rowwise [OF assms])
  qed
qed




lemma run_memcpy_Cons:
  "run_memcpy dstm srcm (c # cs) = run_memcpy (memcpy dstm srcm c) srcm cs"
  by (simp add: run_memcpy_def)

lemma run_memcpy_append:
  "run_memcpy dstm srcm (xs @ ys) = run_memcpy (run_memcpy dstm srcm xs) srcm ys"
  by (simp add: run_memcpy_def)

lemma written_Cons: "written ((d, s, n) # cs) = {d ..< d + n} \<union> written cs"
  by (simp add: written_def)

lemma written_concat: "written (concat xss) = (\<Union>xs \<in> set xss. written xs)"
  by (induction xss) (simp_all add: written_append, simp add: written_def)

lemma run_memcpy_outside:
  "a \<notin> written cs \<Longrightarrow> run_memcpy dstm srcm cs a = dstm a"
proof (induction cs arbitrary: dstm)
  case Nil
  show ?case by (simp add: run_memcpy_def)
next
  case (Cons c cs)
  obtain d s n where c: "c = (d, s, n)" by (cases c)
  from Cons.prems have out: "a \<notin> {d ..< d + n}" "a \<notin> written cs"
    by (simp_all add: c written_Cons)
  have "run_memcpy dstm srcm (c # cs) a = memcpy dstm srcm c a"
    by (simp only: run_memcpy_Cons Cons.IH [OF out(2)])
  also have "\<dots> = dstm a" using out(1) by (auto simp: c memcpy_def)
  finally show ?case .
qed

lemma run_memcpy_value:
  assumes "\<And>d s n. (d, s, n) \<in> set cs \<Longrightarrow> d \<le> a \<Longrightarrow> a < d + n \<Longrightarrow> srcm (s + (a - d)) = v"
    and "a \<in> written cs"
  shows "run_memcpy dstm srcm cs a = v"
  using assms
proof (induction cs arbitrary: dstm)
  case Nil
  then show ?case by (simp add: written_def)
next
  case (Cons c cs)
  obtain d s n where c: "c = (d, s, n)" by (cases c)
  show ?case
  proof (cases "a \<in> written cs")
    case True
    have "run_memcpy (memcpy dstm srcm c) srcm cs a = v"
      by (rule Cons.IH [OF _ True]) (rule Cons.prems(1), simp_all)
    then show ?thesis by (simp only: run_memcpy_Cons)
  next
    case False
    with Cons.prems(2) have "a \<in> {d ..< d + n}" by (simp add: c written_Cons)
    then have r: "d \<le> a" "a < d + n" by simp_all
    have "run_memcpy dstm srcm (c # cs) a = memcpy dstm srcm c a"
      by (simp only: run_memcpy_Cons run_memcpy_outside [OF False])
    also have "\<dots> = srcm (s + (a - d))" using r by (simp add: c memcpy_def)
    also have "\<dots> = v" by (rule Cons.prems(1) [OF _ r]) (simp add: c)
    finally show ?thesis .
  qed
qed

lemma manual_by_rows:
  "\<forall>r \<in> set rs. fits bpp ds ss rows r \<Longrightarrow>
   run_memcpy dstm srcm (copyBlt_manual bpp ds ss rs) =
   run_memcpy dstm srcm (concat (map (copy_rect_by_rows bpp ds ss) rs))"
proof (induction rs arbitrary: dstm)
  case Nil
  show ?case by (simp add: copyBlt_manual_def)
next
  case (Cons r rs)
  from Cons.prems have r: "fits bpp ds ss rows r" and rs: "\<forall>r \<in> set rs. fits bpp ds ss rows r"
    by simp_all
  have "run_memcpy dstm srcm (copyBlt_manual bpp ds ss (r # rs)) =
        run_memcpy (run_memcpy dstm srcm (copy_rect bpp ds ss r)) srcm
          (copyBlt_manual bpp ds ss rs)"
    by (simp add: copyBlt_manual_def run_memcpy_append)
  also have "\<dots> = run_memcpy (run_memcpy dstm srcm (copy_rect_by_rows bpp ds ss r)) srcm
          (concat (map (copy_rect_by_rows bpp ds ss) rs))"
    by (simp only: copy_rect_same_memory [OF r] Cons.IH [OF rs])
  finally show ?case by (simp add: run_memcpy_append)
qed

text \<open>Byte \<open>k\<close> of a pixel of a row lies in that row and in no other.\<close>

lemma pixel_in_row:
  assumes "0 \<le> x" "x < ds" "k < bpp"
  shows "ds * y * int bpp \<le> pixel_byte bpp ds x y k"
    and "pixel_byte bpp ds x y k < ds * (y + 1) * int bpp"
proof -
  have "ds * y * int bpp \<le> ds * y * int bpp + x * int bpp"
    using assms(1) by simp
  then show "ds * y * int bpp \<le> pixel_byte bpp ds x y k"
    by (simp add: pixel_byte_def algebra_simps)
  have "(x + 1) * int bpp \<le> ds * int bpp"
    using assms(2) by (intro mult_right_mono) simp_all
  then have "x * int bpp + int k < ds * int bpp"
    using assms(3) by (simp add: algebra_simps)
  then show "pixel_byte bpp ds x y k < ds * (y + 1) * int bpp"
    by (simp add: pixel_byte_def algebra_simps)
qed

lemma rows_apart:
  assumes "0 \<le> P" "(y::int) < y'"
  shows "P * (y + 1) \<le> P * y'"
  using assms by (intro mult_left_mono) simp_all

lemma by_rows_source:
  assumes "fits bpp ds ss rows r" "(d, s, n) \<in> set (copy_rect_by_rows bpp ds ss r)"
    and "d \<le> pixel_byte bpp ds x y k" "pixel_byte bpp ds x y k < d + n"
    and "0 \<le> x" "x < ds" "k < bpp"
  shows "s + (pixel_byte bpp ds x y k - d) = pixel_byte bpp ss x y k"
proof -
  let ?a = "pixel_byte bpp ds x y k" and ?B = "int bpp"
  have pos: "0 < r_right r - r_left r" "0 < r_bottom r - r_top r"
    using assms(2) copy_rect_nothing(2) [OF assms(1)] by fastforce+
  from assms(2) obtain i where i: "i < nat (r_bottom r - r_top r)"
    and d: "d = (r_left r + ds * r_top r) * ?B + int i * (ds * ?B)"
    and s: "s = (r_left r + ss * r_top r) * ?B + int i * (ss * ?B)"
    and n: "n = (r_right r - r_left r) * ?B"
    unfolding copy_rect_by_rows_map [OF assms(1) pos] by auto
  define y' where "y' = r_top r + int i"
  have d': "d = (r_left r + ds * y') * ?B" and s': "s = (r_left r + ss * y') * ?B"
    by (simp_all add: d s y'_def algebra_simps)
  have l: "0 \<le> r_left r" and rr: "r_right r \<le> ds" and dsn: "0 \<le> ds"
    using assms(1,5,6) by (simp_all add: fits_def)
  have P: "0 \<le> ds * ?B" using dsn by simp
  have lo: "ds * y' * ?B \<le> d"
    using l by (simp add: d' algebra_simps)
  have "r_right r * ?B \<le> ds * ?B" using rr by (intro mult_right_mono) simp_all
  then have hi: "d + n \<le> ds * (y' + 1) * ?B"
    by (simp add: d' n algebra_simps)
  have "y = y'"
  proof (rule ccontr)
    assume "y \<noteq> y'"
    then consider "y < y'" | "y' < y" by linarith
    then show False
    proof cases
      case 1
      have "?a < ds * (y + 1) * ?B" by (rule pixel_in_row(2) [OF assms(5-7)])
      also have "\<dots> = (ds * ?B) * (y + 1)" by (simp add: algebra_simps)
      also have "\<dots> \<le> (ds * ?B) * y'" by (rule rows_apart [OF P 1])
      also have "\<dots> = ds * y' * ?B" by (simp add: algebra_simps)
      also have "\<dots> \<le> d" by (rule lo)
      finally show False using assms(3) by simp
    next
      case 2
      have "?a < d + n" by (rule assms(4))
      also have "\<dots> \<le> ds * (y' + 1) * ?B" by (rule hi)
      also have "\<dots> = (ds * ?B) * (y' + 1)" by (simp add: algebra_simps)
      also have "\<dots> \<le> (ds * ?B) * y" by (rule rows_apart [OF P 2])
      also have "\<dots> = ds * y * ?B" by (simp add: algebra_simps)
      also have "\<dots> \<le> ?a" by (rule pixel_in_row(1) [OF assms(5-7)])
      finally show False by simp
    qed
  qed
  then show ?thesis
    by (simp add: d' s' pixel_byte_def algebra_simps)
qed

lemma pixel_in_rect:
  assumes "covers r x y" "k < bpp"
  shows "pixel_byte bpp stride x y k \<in> rect_bytes bpp stride r"
proof -
  from assms(1) have c: "r_left r \<le> x" "x < r_right r" "r_top r \<le> y" "y < r_bottom r"
    by (simp_all add: covers_def)
  have "r_left r * int bpp \<le> x * int bpp" using c(1) by (intro mult_right_mono) simp_all
  then have lo: "(r_left r + stride * y) * int bpp \<le> pixel_byte bpp stride x y k"
    by (simp add: pixel_byte_def algebra_simps)
  have "(x + 1) * int bpp \<le> r_right r * int bpp"
    using c(2) by (intro mult_right_mono) simp_all
  then have "x * int bpp + int k < r_right r * int bpp"
    using assms(2) by (simp add: algebra_simps)
  then have hi: "pixel_byte bpp stride x y k < (r_right r + stride * y) * int bpp"
    by (simp add: pixel_byte_def algebra_simps)
  show ?thesis
    unfolding rect_bytes_def using c(3,4) lo hi by auto
qed

lemma by_rows_pixels:
  assumes "\<forall>r \<in> set rs. fits bpp ds ss rows r"
  shows "covered rs x y \<Longrightarrow> k < bpp \<Longrightarrow>
           run_memcpy dstm srcm (concat (map (copy_rect_by_rows bpp ds ss) rs))
             (pixel_byte bpp ds x y k) = srcm (pixel_byte bpp ss x y k)"
    and "q \<notin> (\<Union>r \<in> set rs. rect_bytes bpp ds r) \<Longrightarrow>
           run_memcpy dstm srcm (concat (map (copy_rect_by_rows bpp ds ss) rs)) q = dstm q"
proof -
  let ?cs = "concat (map (copy_rect_by_rows bpp ds ss) rs)"
  have "written (copy_rect_by_rows bpp ds ss r) = rect_bytes bpp ds r" if "r \<in> set rs" for r
    using assms that by (intro written_by_rows) blast
  then have w: "written ?cs = (\<Union>r \<in> set rs. rect_bytes bpp ds r)"
    by (simp add: written_concat)
  show "run_memcpy dstm srcm ?cs q = dstm q" if "q \<notin> (\<Union>r \<in> set rs. rect_bytes bpp ds r)"
    using that unfolding w [symmetric] by (rule run_memcpy_outside)
  show "run_memcpy dstm srcm ?cs (pixel_byte bpp ds x y k) = srcm (pixel_byte bpp ss x y k)"
    if c: "covered rs x y" and k: "k < bpp"
  proof (rule run_memcpy_value)
    from c obtain r0 where r0: "r0 \<in> set rs" "covers r0 x y"
      by (auto simp: covered_def list_ex_iff)
    have f0: "fits bpp ds ss rows r0" using assms r0(1) by blast
    have x: "0 \<le> x" "x < ds" using f0 r0(2) by (simp_all add: fits_def covers_def)
    show "pixel_byte bpp ds x y k \<in> written ?cs"
      unfolding w using pixel_in_rect [OF r0(2) k] r0(1) by blast
    fix d s n
    assume call: "(d, s, n) \<in> set ?cs" and lo: "d \<le> pixel_byte bpp ds x y k"
      and hi: "pixel_byte bpp ds x y k < d + n"
    from call obtain r where r: "r \<in> set rs" "(d, s, n) \<in> set (copy_rect_by_rows bpp ds ss r)"
      by auto
    have f: "fits bpp ds ss rows r" using assms r(1) by blast
    show "srcm (s + (pixel_byte bpp ds x y k - d)) = srcm (pixel_byte bpp ss x y k)"
      by (simp only: by_rows_source [OF f r(2) lo hi x k])
  qed
qed

lemma manual_copy_pixels:
  assumes "\<forall>r \<in> set rs. fits bpp ds ss rows r"
  shows "covered rs x y \<Longrightarrow> k < bpp \<Longrightarrow>
           copyBlt None bpp ds ss dstm srcm rs (pixel_byte bpp ds x y k) =
             srcm (pixel_byte bpp ss x y k)"
    and "q \<notin> (\<Union>r \<in> set rs. rect_bytes bpp ds r) \<Longrightarrow>
           copyBlt None bpp ds ss dstm srcm rs q = dstm q"
  using by_rows_pixels [OF assms] by (simp_all add: copyBlt_def manual_by_rows [OF assms])






text \<open>
  A rectangle narrower than the row is copied by one call for each row: here two rows
  of 4 bytes, 16 bytes apart.
\<close>

lemma copy_rect_two_rows:
  "copy_rect 2 8 8 (Rect_ltrb 1 0 3 2) = [(2, 2, 4), (18, 18, 4)]"
  by (simp add: copy_rect_def Rect_ltrb_def Let_def int32_def memcpy_loop_step memcpy_loop_once)

section \<open>Window surface\<close>

text \<open>
  A \<open>connect\<close> that fails after \<open>dequeueBuffer\<close>: with the allocator of this source
  tree and a depth format, \<open>connect\<close> returns \<open>EGL_FALSE\<close> at the allocation of the
  depth plane, before \<open>incRef\<close> and \<open>lock\<close>, and leaves \<open>buffer\<close> set.
\<close>

lemma connect_no_memory:
  "connect hal_wide_no_memory (FGLWindowSurface_new raw_surface 1 128 128 0) =
     (EGL_FALSE, failed_connect)"
  by (simp add: connect_def emit_def setError_def FGLWindowSurface_new_def Let_def
      hal_wide_no_memory_def fimgAllocMemory_unimplemented_def raw_surface_def raw_plane_def
      wide_buffer_at_def failed_connect_def sizeof_FGLPlane_def u32_def)

text \<open>
  Claim C10, amended. \<open>swapBuffers\<close> on a surface whose \<open>buffer\<close> is null returns
  \<open>EGL_FALSE\<close> with the error \<open>EGL_BAD_ACCESS\<close>, makes no call to the outside and
  leaves every field of the surface as it was. A surface just constructed and a surface
  after \<open>disconnect\<close> are in this state.
\<close>

theorem swapBuffers_unconnected:
  "(buffer w = None \<longrightarrow>
      swapBuffers h w = Some (EGL_FALSE, w\<lparr>eglError := EGL_BAD_ACCESS\<rparr>)) \<and>
   swapBuffers h (FGLWindowSurface_new raw depthFormat win_w win_h engine) =
     Some (EGL_FALSE, (FGLWindowSurface_new raw depthFormat win_w win_h engine)
                        \<lparr>eglError := EGL_BAD_ACCESS\<rparr>) \<and>
   swapBuffers h (disconnect w) = Some (EGL_FALSE, (disconnect w)\<lparr>eglError := EGL_BAD_ACCESS\<rparr>)"
proof -
  have "buffer (disconnect w) = None"
    by (simp add: disconnect_def Let_def emit_def unlock_def split: option.split)
  moreover have "buffer (FGLWindowSurface_new raw depthFormat win_w win_h engine) = None"
    by (simp add: FGLWindowSurface_new_def)
  ultimately show ?thesis
    by (simp add: swapBuffers_def setError_def)
qed

theorem swapBuffers_unconnected_witness:
  "buffer raw_surface = None \<and>
   swapBuffers hal_ok raw_surface =
     Some (EGL_FALSE, raw_surface\<lparr>eglError := EGL_BAD_ACCESS\<rparr>)"
  using swapBuffers_unconnected [of raw_surface hal_ok]
  by (simp add: raw_surface_def)

lemmas swap_eval = swapBuffers_def swapBuffers_copyBack_def swapBuffers_copyBlt_def
  swapBuffers_handoff_def swapBuffers_acquire_def swapBuffers_pin_def lock_def unlock_def
  emit_def setError_def setSwapRectangle_def Let_def

text \<open>
  Claim C10 against the code. After the \<open>connect\<close> that failed at the allocation of
  the depth plane no buffer is pinned: \<open>bits\<close> is null, no reference is held and
  nothing is locked. But \<open>buffer\<close> is not null, and \<open>swapBuffers\<close> does not refuse:
  it unlocks and queues the buffer, dequeues and pins the next one and returns
  \<open>EGL_TRUE\<close>.
\<close>

theorem swapBuffers_unconnected_counterexample:
  "connect hal_wide_no_memory (FGLWindowSurface_new raw_surface 1 128 128 0) =
     (EGL_FALSE, failed_connect) \<and>
   bits failed_connect = 0 \<and>
   swapBuffers hal_wide_no_memory failed_connect =
     Some (EGL_TRUE,
           failed_connect\<lparr>previousBuffer := Some (wide_buffer_at 1),
             buffer := Some (wide_buffer_at 5), bits := 4096,
             trace := [SetUsage, DequeueBuffer (Some (wide_buffer_at 1)), AllocMemory 131072 0,
                       Unlock 1, QueueBuffer (Some 1), DequeueBuffer (Some (wide_buffer_at 5)),
                       LockBuffer (Some 5), IncRef 5, Lock 5]\<rparr>)"
  by (simp add: connect_no_memory)
    (simp add: swap_eval failed_connect_def hal_wide_no_memory_def raw_surface_def
      wide_buffer_at_def isEmpty_def Rect_ltrb_def)

text \<open>
  For a buffer with a software handle \<open>lock\<close> and \<open>unlock\<close> make no call: the address
  is the base of the handle and \<open>lock\<close> cannot fail.
\<close>

lemma lock_software_handle:
  "nb_sw_base buf = Some base \<Longrightarrow> lock h buf w = (Some base, w) \<and> unlock (Some buf) w = w"
  by (simp add: lock_def unlock_def)

lemma lock_trace:
  "lock h p (w\<lparr>dirtyRegion := X\<rparr>) =
     (fst (lock h p w), (snd (lock h p w))\<lparr>dirtyRegion := X\<rparr>)"
  by (simp add: lock_def emit_def split: option.split)

lemma clip_explicit:
  "andSelf D (Rect_wh W H) =
     \<lparr>r_left = max (r_left D) 0, r_top = max (r_top D) 0,
      r_right = min (r_right D) W, r_bottom = min (r_bottom D) H\<rparr>"
  by (simp add: andSelf_def Rect_wh_def max_T_eq min_T_eq)

lemma copyBack_total: "\<exists>w1. swapBuffers_copyBack h b w = Some w1"
proof -
  obtain reg where "subtract (oldDirtyRegion w)
      (andSelf (dirtyRegion w) (Rect_wh (nb_width b) (nb_height b))) = Some reg"
    and "region_rects reg = Some (subtract_spec (oldDirtyRegion w)
      (andSelf (dirtyRegion w) (Rect_wh (nb_width b) (nb_height b))))"
    using subtract_total by blast
  then show ?thesis
    by (simp add: swapBuffers_copyBack_def swapBuffers_copyBlt_def Let_def lock_def emit_def
        split: option.split)
qed

lemma copyBack_regions:
  assumes "swapBuffers_copyBack h b w = Some w1"
  shows "isEmpty (dirtyRegion w) \<longrightarrow>
           dirtyRegion w1 = dirtyRegion w \<and> oldDirtyRegion w1 = oldDirtyRegion w \<and>
           pixels w1 = pixels w \<and> trace w1 = trace w"
    and "\<not> isEmpty (dirtyRegion w) \<longrightarrow>
           dirtyRegion w1 = andSelf (dirtyRegion w) (Rect_wh (nb_width b) (nb_height b)) \<and>
           oldDirtyRegion w1 = andSelf (dirtyRegion w) (Rect_wh (nb_width b) (nb_height b))"
  using assms
  by (auto simp: swapBuffers_copyBack_def swapBuffers_copyBlt_def Let_def lock_def unlock_def
      emit_def split: if_splits option.splits bind_splits)

lemma since_compose:
  assumes "trace w1 = trace w @ since w w1" "trace w2 = trace w1 @ since w1 w2"
  shows "trace w2 = trace w @ since w w2" and "since w w2 = since w w1 @ since w1 w2"
proof -
  have "trace w2 = trace w @ (since w w1 @ since w1 w2)"
    using assms by (metis append.assoc)
  then show "since w w2 = since w w1 @ since w1 w2"
    by (metis append_eq_conv_conj since_def)
  then show "trace w2 = trace w @ since w w2"
    using \<open>trace w2 = trace w @ (since w w1 @ since w1 w2)\<close> by simp
qed

lemma copyBack_prefix:
  "swapBuffers_copyBack h b w = Some w1 \<Longrightarrow> trace w1 = trace w @ since w w1"
  by (auto simp: swapBuffers_copyBack_def swapBuffers_copyBlt_def Let_def lock_def unlock_def
      emit_def since_def split: if_splits option.splits bind_splits)

lemma copyBack_only_copy:
  assumes "swapBuffers_copyBack h b w = Some w1"
    and "CopyBlt dst dv src sv reg \<in> set (since w w1)"
  shows "\<not> isEmpty (dirtyRegion w) \<and>
         (\<exists>p. previousBuffer w = Some p \<and> src = nb_ptr p \<and> fst (lock h p w) = Some sv) \<and>
         dst = nb_ptr b \<and> dv = bits w \<and>
         subtract (oldDirtyRegion w)
           (andSelf (dirtyRegion w) (Rect_wh (nb_width b) (nb_height b))) = Some reg \<and>
         \<not> Region_isEmpty reg"
proof -
  have "\<not> isEmpty (dirtyRegion w) \<and> previousBuffer w \<noteq> None \<and>
         (\<forall>p. previousBuffer w = Some p \<longrightarrow> src = nb_ptr p \<and> fst (lock h p w) = Some sv) \<and>
         dst = nb_ptr b \<and> dv = bits w \<and>
         subtract (oldDirtyRegion w)
           (andSelf (dirtyRegion w) (Rect_wh (nb_width b) (nb_height b))) = Some reg \<and>
         \<not> Region_isEmpty reg"
    using assms
    by (auto simp: swapBuffers_copyBack_def swapBuffers_copyBlt_def Let_def lock_def unlock_def
        emit_def since_def split: if_splits option.splits bind_splits)
  then show ?thesis by blast
qed

lemma copyBack_does_copy:
  assumes "swapBuffers_copyBack h b w = Some w1"
    and "\<not> isEmpty (dirtyRegion w)" "previousBuffer w = Some p"
    and "subtract (oldDirtyRegion w)
           (andSelf (dirtyRegion w) (Rect_wh (nb_width b) (nb_height b))) = Some reg"
    and "\<not> Region_isEmpty reg" "fst (lock h p w) = Some a"
  shows "CopyBlt (nb_ptr b) (bits w) (nb_ptr p) a reg \<in> set (since w w1)"
    and "\<exists>rs. region_rects reg = Some rs \<and>
           pixels w1 = (pixels w)(bits w :=
             copyBlt (if blitengine w \<noteq> 0
                      then Some (copybit_blit h (length (trace (snd (lock h p w))))) else None)
               (u32 (getBpp h (nb_format p))) (nb_stride b) (nb_stride p)
               (pixels w (bits w)) (pixels w a) rs)"
  using assms
  by (auto simp: swapBuffers_copyBack_def swapBuffers_copyBlt_def Let_def lock_def unlock_def
      emit_def since_def split: if_splits option.splits bind_splits)

lemma copyBack_no_copy:
  assumes "swapBuffers_copyBack h b w = Some w1" "\<forall>e \<in> set (since w w1). \<not> is_CopyBlt e"
  shows "pixels w1 = pixels w"
  using assms
  by (auto simp: swapBuffers_copyBack_def swapBuffers_copyBlt_def Let_def lock_def unlock_def
      emit_def since_def split: if_splits option.splits bind_splits)

lemma handoff_later:
  "trace (swapBuffers_handoff h w) = trace w @ since w (swapBuffers_handoff h w) \<and>
   (\<forall>e \<in> set (since w (swapBuffers_handoff h w)). \<not> is_CopyBlt e \<and> \<not> is_allocator_call e)"
  by (simp add: swapBuffers_handoff_def Let_def unlock_def emit_def since_def split: option.split)

lemma handoff_fields:
  "dirtyRegion (swapBuffers_handoff h w) = dirtyRegion w \<and>
   oldDirtyRegion (swapBuffers_handoff h w) = oldDirtyRegion w \<and>
   width (swapBuffers_handoff h w) = width w \<and> height (swapBuffers_handoff h w) = height w \<and>
   depth (swapBuffers_handoff h w) = depth w \<and> bits (swapBuffers_handoff h w) = bits w \<and>
   eglError (swapBuffers_handoff h w) = eglError w \<and>
   pixels (swapBuffers_handoff h w) = pixels w \<and>
   blitengine (swapBuffers_handoff h w) = blitengine w"
  by (auto simp: swapBuffers_handoff_def Let_def unlock_def emit_def split: option.splits)

lemma acquire_later:
  "swapBuffers_acquire h nb w = (res, w') \<Longrightarrow>
   trace w' = trace w @ since w w' \<and> (\<forall>e \<in> set (since w w'). \<not> is_CopyBlt e)"
  by (auto simp: swapBuffers_acquire_def swapBuffers_pin_def Let_def lock_def emit_def setError_def
      since_def split: if_splits option.splits)

lemma acquire_regions:
  "swapBuffers_acquire h nb w = (res, w') \<Longrightarrow>
   dirtyRegion w' = dirtyRegion w \<and> oldDirtyRegion w' = oldDirtyRegion w \<and> buffer w' = buffer w \<and>
   previousBuffer w' = previousBuffer w \<and> pixels w' = pixels w \<and> blitengine w' = blitengine w"
  by (auto simp: swapBuffers_acquire_def swapBuffers_pin_def Let_def lock_def emit_def setError_def
      split: if_splits option.splits)

lemma swapBuffers_phases:
  assumes "buffer w = Some b" "swapBuffers h w = Some (res, w')"
  obtains w1 nb where "swapBuffers_copyBack h b w = Some w1"
    and "buffer (swapBuffers_handoff h w1) = Some nb"
    and "swapBuffers_acquire h nb (swapBuffers_handoff h w1) = (res, w')"
  using assms by (auto simp: swapBuffers_def Let_def split: bind_splits option.splits)

lemma swapBuffers_since:
  assumes "buffer w = Some b" "swapBuffers h w = Some (res, w')"
    and "swapBuffers_copyBack h b w = Some w1"
  shows "\<exists>evs. since w w' = since w w1 @ evs \<and> (\<forall>e \<in> set evs. \<not> is_CopyBlt e)"
proof -
  let ?w2 = "swapBuffers_handoff h w1"
  obtain w1' nb where "swapBuffers_copyBack h b w = Some w1'"
    and "swapBuffers_acquire h nb (swapBuffers_handoff h w1') = (res, w')"
    using swapBuffers_phases [OF assms(1,2)] by metis
  with assms(3) have acq: "swapBuffers_acquire h nb ?w2 = (res, w')" by simp
  note p0 = copyBack_prefix [OF assms(3)]
  have p1: "trace ?w2 = trace w1 @ since w1 ?w2"
    and n1: "\<forall>e \<in> set (since w1 ?w2). \<not> is_CopyBlt e"
    using handoff_later [of h w1] by simp_all
  have p2: "trace w' = trace ?w2 @ since ?w2 w'"
    and n2: "\<forall>e \<in> set (since ?w2 w'). \<not> is_CopyBlt e"
    using acquire_later [OF acq] by simp_all
  have t2: "trace ?w2 = trace w @ since w ?w2"
    by (rule since_compose(1) [OF p0 p1])
  have s2: "since w ?w2 = since w w1 @ since w1 ?w2"
    by (rule since_compose(2) [OF p0 p1])
  have "since w w' = since w ?w2 @ since ?w2 w'"
    by (rule since_compose(2) [OF t2 p2])
  then have "since w w' = since w w1 @ (since w1 ?w2 @ since ?w2 w')"
    by (simp only: s2 append_assoc)
  moreover have "\<forall>e \<in> set (since w1 ?w2 @ since ?w2 w'). \<not> is_CopyBlt e"
    using n1 n2 by (simp add: ball_Un)
  ultimately show ?thesis by (rule_tac x = "since w1 ?w2 @ since ?w2 w'" in exI) simp
qed

lemma swapBuffers_returns:
  assumes "buffer w = Some b" "\<forall>n. dequeueBuffer h n \<noteq> None"
  shows "\<exists>res w'. swapBuffers h w = Some (res, w')"
proof -
  obtain w1 where w1: "swapBuffers_copyBack h b w = Some w1" using copyBack_total by blast
  have "buffer (swapBuffers_handoff h w1) \<noteq> None"
    using assms(2)
    by (auto simp: swapBuffers_handoff_def Let_def unlock_def emit_def split: option.splits)
  then obtain nb where "buffer (swapBuffers_handoff h w1) = Some nb" by blast
  then show ?thesis
    using assms(1) w1 by (cases "swapBuffers_acquire h nb (swapBuffers_handoff h w1)")
      (simp add: swapBuffers_def)
qed

lemma example_region:
  "\<exists>reg. subtract (Rect_ltrb 0 0 100 100) (Rect_ltrb 0 0 50 100) = Some reg \<and>
     region_rects reg = Some [Rect_ltrb 50 0 100 100] \<and> \<not> Region_isEmpty reg"
proof -
  have spec: "subtract_spec (Rect_ltrb 0 0 100 100) (Rect_ltrb 0 0 50 100) = [Rect_ltrb 50 0 100 100]"
    by (simp add: subtract_spec_def isEmpty_def Rect_ltrb_def)
  show ?thesis
    using subtract_total [of "Rect_ltrb 0 0 100 100" "Rect_ltrb 0 0 50 100"]
    by (auto simp: spec Region_isEmpty_def)
qed

text \<open>
  Claim C3. In a \<open>swapBuffers\<close> that returns: when the dirty region is empty the two
  regions and the pixels stay as they are and nothing is copied. When it is not empty
  the region stored is the requested region cut to the bounds of the current buffer,
  its left and top edges raised to 0 and its right and bottom edges lowered to the
  width and the height of the buffer, and the same region is the new
  \<open>oldDirtyRegion\<close>. A \<open>copyBlt\<close> is made only with a previous buffer as its source
  and the current buffer as destination, and only for the region
  \<open>subtract(oldDirtyRegion, clipped dirtyRegion)\<close> when that region is not empty; it is
  made whenever these hold and the previous buffer can be locked, and then the memory
  of the current buffer is what \<open>copyBlt\<close> leaves; without a \<open>copyBlt\<close> no pixel
  changes. When the manual copy runs for rectangles within the two buffers, every byte
  of every pixel of the region in the current buffer is the byte of the same pixel of
  the previous buffer, and every other byte stays as it was. With the previous region
  \<open>(0,0,100,100)\<close> and the clipped update region \<open>(0,0,50,100)\<close> the region copied is
  \<open>{(50,0,100,100)}\<close>.
\<close>

theorem swapBuffers_copy_back:
  assumes "buffer w = Some b" and "swapBuffers h w = Some (res, w')"
  shows
   "(isEmpty (dirtyRegion w) \<longrightarrow>
       dirtyRegion w' = dirtyRegion w \<and> oldDirtyRegion w' = oldDirtyRegion w \<and>
       pixels w' = pixels w \<and> (\<forall>e \<in> set (since w w'). \<not> is_CopyBlt e)) \<and>
    (\<not> isEmpty (dirtyRegion w) \<longrightarrow>
       dirtyRegion w' =
         \<lparr>r_left = max (r_left (dirtyRegion w)) 0, r_top = max (r_top (dirtyRegion w)) 0,
          r_right = min (r_right (dirtyRegion w)) (nb_width b),
          r_bottom = min (r_bottom (dirtyRegion w)) (nb_height b)\<rparr> \<and>
       oldDirtyRegion w' = dirtyRegion w') \<and>
    (\<forall>dst dv src sv reg. CopyBlt dst dv src sv reg \<in> set (since w w') \<longrightarrow>
       \<not> isEmpty (dirtyRegion w) \<and>
       (\<exists>p. previousBuffer w = Some p \<and> src = nb_ptr p \<and> fst (lock h p w) = Some sv) \<and>
       dst = nb_ptr b \<and> dv = bits w \<and>
       subtract (oldDirtyRegion w) (dirtyRegion w') = Some reg \<and> \<not> Region_isEmpty reg) \<and>
    ((\<forall>e \<in> set (since w w'). \<not> is_CopyBlt e) \<longrightarrow> pixels w' = pixels w) \<and>
    (\<forall>p a reg. \<not> isEmpty (dirtyRegion w) \<and> previousBuffer w = Some p \<and>
       subtract (oldDirtyRegion w) (dirtyRegion w') = Some reg \<and>
       \<not> Region_isEmpty reg \<and> fst (lock h p w) = Some a \<longrightarrow>
       CopyBlt (nb_ptr b) (bits w) (nb_ptr p) a reg \<in> set (since w w') \<and>
       (\<exists>rs. region_rects reg = Some rs \<and>
          pixels w' = (pixels w)(bits w :=
            copyBlt (if blitengine w \<noteq> 0
                     then Some (copybit_blit h (length (trace (snd (lock h p w))))) else None)
              (u32 (getBpp h (nb_format p))) (nb_stride b) (nb_stride p)
              (pixels w (bits w)) (pixels w a) rs))) \<and>
    (\<forall>p a reg rs rows. \<not> isEmpty (dirtyRegion w) \<and> previousBuffer w = Some p \<and>
       subtract (oldDirtyRegion w) (dirtyRegion w') = Some reg \<and>
       \<not> Region_isEmpty reg \<and> fst (lock h p w) = Some a \<and> region_rects reg = Some rs \<and>
       blitengine w = 0 \<and>
       (\<forall>r \<in> set rs. fits (u32 (getBpp h (nb_format p))) (nb_stride b) (nb_stride p) rows r) \<longrightarrow>
       (\<forall>x y k. covered rs x y \<and> k < u32 (getBpp h (nb_format p)) \<longrightarrow>
          pixels w' (bits w) (pixel_byte (u32 (getBpp h (nb_format p))) (nb_stride b) x y k) =
          pixels w a (pixel_byte (u32 (getBpp h (nb_format p))) (nb_stride p) x y k)) \<and>
       (\<forall>q. q \<notin> (\<Union>r \<in> set rs. rect_bytes (u32 (getBpp h (nb_format p))) (nb_stride b) r) \<longrightarrow>
          pixels w' (bits w) q = pixels w (bits w) q) \<and>
       (\<forall>m. m \<noteq> bits w \<longrightarrow> pixels w' m = pixels w m)) \<and>
    (\<forall>p a. oldDirtyRegion w = Rect_ltrb 0 0 100 100 \<and> \<not> isEmpty (dirtyRegion w) \<and>
       dirtyRegion w' = Rect_ltrb 0 0 50 100 \<and> previousBuffer w = Some p \<and>
       fst (lock h p w) = Some a \<longrightarrow>
       (\<exists>reg. region_rects reg = Some [Rect_ltrb 50 0 100 100] \<and>
              CopyBlt (nb_ptr b) (bits w) (nb_ptr p) a reg \<in> set (since w w')))"
proof -
  let ?clip = "andSelf (dirtyRegion w) (Rect_wh (nb_width b) (nb_height b))"
  obtain w1 nb where w1: "swapBuffers_copyBack h b w = Some w1"
    and acq: "swapBuffers_acquire h nb (swapBuffers_handoff h w1) = (res, w')"
    using swapBuffers_phases [OF assms] by metis
  obtain evs where evs: "since w w' = since w w1 @ evs" "\<forall>e \<in> set evs. \<not> is_CopyBlt e"
    using swapBuffers_since [OF assms w1] by blast
  have regions: "dirtyRegion w' = dirtyRegion w1" "oldDirtyRegion w' = oldDirtyRegion w1"
    and px: "pixels w' = pixels w1"
    using acquire_regions [OF acq] handoff_fields [of h w1] by simp_all
  have copy_iff: "CopyBlt dst dv src sv reg \<in> set (since w w') \<longleftrightarrow>
      CopyBlt dst dv src sv reg \<in> set (since w w1)" for dst dv src sv reg
    using evs by auto
  have none_iff: "(\<forall>e \<in> set (since w w'). \<not> is_CopyBlt e) \<longleftrightarrow>
      (\<forall>e \<in> set (since w w1). \<not> is_CopyBlt e)"
    using evs by auto
  have clip: "\<not> isEmpty (dirtyRegion w) \<Longrightarrow> dirtyRegion w' = ?clip"
    using copyBack_regions(2) [OF w1] regions by simp
  have A: "isEmpty (dirtyRegion w) \<longrightarrow>
       dirtyRegion w' = dirtyRegion w \<and> oldDirtyRegion w' = oldDirtyRegion w \<and>
       pixels w' = pixels w \<and> (\<forall>e \<in> set (since w w'). \<not> is_CopyBlt e)"
    using copyBack_regions(1) [OF w1] regions px evs by (auto simp: since_def)
  have B: "\<not> isEmpty (dirtyRegion w) \<longrightarrow>
       dirtyRegion w' =
         \<lparr>r_left = max (r_left (dirtyRegion w)) 0, r_top = max (r_top (dirtyRegion w)) 0,
          r_right = min (r_right (dirtyRegion w)) (nb_width b),
          r_bottom = min (r_bottom (dirtyRegion w)) (nb_height b)\<rparr> \<and>
       oldDirtyRegion w' = dirtyRegion w'"
    using copyBack_regions(2) [OF w1] regions by (simp add: clip_explicit)
  have C: "\<forall>dst dv src sv reg. CopyBlt dst dv src sv reg \<in> set (since w w') \<longrightarrow>
       \<not> isEmpty (dirtyRegion w) \<and>
       (\<exists>p. previousBuffer w = Some p \<and> src = nb_ptr p \<and> fst (lock h p w) = Some sv) \<and>
       dst = nb_ptr b \<and> dv = bits w \<and>
       subtract (oldDirtyRegion w) (dirtyRegion w') = Some reg \<and> \<not> Region_isEmpty reg"
  proof (intro allI impI)
    fix dst dv src sv reg
    assume "CopyBlt dst dv src sv reg \<in> set (since w w')"
    then have c: "CopyBlt dst dv src sv reg \<in> set (since w w1)" by (simp only: copy_iff)
    note o = copyBack_only_copy [OF w1 c]
    from o have "\<not> isEmpty (dirtyRegion w)" by (rule conjunct1)
    from o show "\<not> isEmpty (dirtyRegion w) \<and>
       (\<exists>p. previousBuffer w = Some p \<and> src = nb_ptr p \<and> fst (lock h p w) = Some sv) \<and>
       dst = nb_ptr b \<and> dv = bits w \<and>
       subtract (oldDirtyRegion w) (dirtyRegion w') = Some reg \<and> \<not> Region_isEmpty reg"
      unfolding clip [OF \<open>\<not> isEmpty (dirtyRegion w)\<close>] .
  qed
  have N: "(\<forall>e \<in> set (since w w'). \<not> is_CopyBlt e) \<longrightarrow> pixels w' = pixels w"
    using copyBack_no_copy [OF w1] by (simp only: none_iff px) blast
  have D: "CopyBlt (nb_ptr b) (bits w) (nb_ptr p) a reg \<in> set (since w w') \<and>
       (\<exists>rs. region_rects reg = Some rs \<and>
          pixels w' = (pixels w)(bits w :=
            copyBlt (if blitengine w \<noteq> 0
                     then Some (copybit_blit h (length (trace (snd (lock h p w))))) else None)
              (u32 (getBpp h (nb_format p))) (nb_stride b) (nb_stride p)
              (pixels w (bits w)) (pixels w a) rs))"
    if pre: "\<not> isEmpty (dirtyRegion w) \<and> previousBuffer w = Some p \<and>
       subtract (oldDirtyRegion w) (dirtyRegion w') = Some reg \<and>
       \<not> Region_isEmpty reg \<and> fst (lock h p w) = Some a" for p a reg
  proof -
    from pre have ne: "\<not> isEmpty (dirtyRegion w)" and p: "previousBuffer w = Some p"
      and s: "subtract (oldDirtyRegion w) (dirtyRegion w') = Some reg"
      and r: "\<not> Region_isEmpty reg" and a: "fst (lock h p w) = Some a"
      by simp_all
    from s have s': "subtract (oldDirtyRegion w) ?clip = Some reg"
      by (simp only: clip [OF ne])
    show ?thesis
      using copyBack_does_copy [OF w1 ne p s' r a] by (simp only: copy_iff px)
  qed
  have F: "(\<forall>x y k. covered rs x y \<and> k < u32 (getBpp h (nb_format p)) \<longrightarrow>
          pixels w' (bits w) (pixel_byte (u32 (getBpp h (nb_format p))) (nb_stride b) x y k) =
          pixels w a (pixel_byte (u32 (getBpp h (nb_format p))) (nb_stride p) x y k)) \<and>
       (\<forall>q. q \<notin> (\<Union>r \<in> set rs. rect_bytes (u32 (getBpp h (nb_format p))) (nb_stride b) r) \<longrightarrow>
          pixels w' (bits w) q = pixels w (bits w) q) \<and>
       (\<forall>m. m \<noteq> bits w \<longrightarrow> pixels w' m = pixels w m)"
    if pre: "\<not> isEmpty (dirtyRegion w) \<and> previousBuffer w = Some p \<and>
       subtract (oldDirtyRegion w) (dirtyRegion w') = Some reg \<and>
       \<not> Region_isEmpty reg \<and> fst (lock h p w) = Some a \<and> region_rects reg = Some rs \<and>
       blitengine w = 0 \<and>
       (\<forall>r \<in> set rs. fits (u32 (getBpp h (nb_format p))) (nb_stride b) (nb_stride p) rows r)"
    for p a reg rs rows
  proof -
    from pre have d: "\<not> isEmpty (dirtyRegion w) \<and> previousBuffer w = Some p \<and>
       subtract (oldDirtyRegion w) (dirtyRegion w') = Some reg \<and>
       \<not> Region_isEmpty reg \<and> fst (lock h p w) = Some a"
      and rs: "region_rects reg = Some rs" and e: "blitengine w = 0"
      and f: "\<forall>r \<in> set rs. fits (u32 (getBpp h (nb_format p))) (nb_stride b) (nb_stride p) rows r"
      by simp_all
    from D [OF d] rs e have eq: "pixels w' = (pixels w)(bits w :=
        copyBlt None (u32 (getBpp h (nb_format p))) (nb_stride b) (nb_stride p)
          (pixels w (bits w)) (pixels w a) rs)"
      by auto
    show ?thesis
      unfolding eq using manual_copy_pixels [OF f] by simp
  qed
  have E: "\<exists>reg. region_rects reg = Some [Rect_ltrb 50 0 100 100] \<and>
              CopyBlt (nb_ptr b) (bits w) (nb_ptr p) a reg \<in> set (since w w')"
    if pre: "oldDirtyRegion w = Rect_ltrb 0 0 100 100 \<and> \<not> isEmpty (dirtyRegion w) \<and>
       dirtyRegion w' = Rect_ltrb 0 0 50 100 \<and> previousBuffer w = Some p \<and>
       fst (lock h p w) = Some a" for p a
  proof -
    from pre have o: "oldDirtyRegion w = Rect_ltrb 0 0 100 100"
      and ne: "\<not> isEmpty (dirtyRegion w)"
      and d: "dirtyRegion w' = Rect_ltrb 0 0 50 100"
      and p: "previousBuffer w = Some p" and a: "fst (lock h p w) = Some a"
      by simp_all
    obtain reg where reg: "subtract (oldDirtyRegion w) (dirtyRegion w') = Some reg"
      "region_rects reg = Some [Rect_ltrb 50 0 100 100]" "\<not> Region_isEmpty reg"
      using example_region unfolding o d by blast
    have "CopyBlt (nb_ptr b) (bits w) (nb_ptr p) a reg \<in> set (since w w')"
      using D [of p reg a] ne p reg(1,3) a by blast
    with reg(2) show ?thesis by blast
  qed
  show ?thesis
  proof (intro conjI)
    show "\<forall>p a reg. \<not> isEmpty (dirtyRegion w) \<and> previousBuffer w = Some p \<and>
       subtract (oldDirtyRegion w) (dirtyRegion w') = Some reg \<and>
       \<not> Region_isEmpty reg \<and> fst (lock h p w) = Some a \<longrightarrow>
       CopyBlt (nb_ptr b) (bits w) (nb_ptr p) a reg \<in> set (since w w') \<and>
       (\<exists>rs. region_rects reg = Some rs \<and>
          pixels w' = (pixels w)(bits w :=
            copyBlt (if blitengine w \<noteq> 0
                     then Some (copybit_blit h (length (trace (snd (lock h p w))))) else None)
              (u32 (getBpp h (nb_format p))) (nb_stride b) (nb_stride p)
              (pixels w (bits w)) (pixels w a) rs))"
      by (intro allI impI) (rule D)
    show "\<forall>p a reg rs rows. \<not> isEmpty (dirtyRegion w) \<and> previousBuffer w = Some p \<and>
       subtract (oldDirtyRegion w) (dirtyRegion w') = Some reg \<and>
       \<not> Region_isEmpty reg \<and> fst (lock h p w) = Some a \<and> region_rects reg = Some rs \<and>
       blitengine w = 0 \<and>
       (\<forall>r \<in> set rs. fits (u32 (getBpp h (nb_format p))) (nb_stride b) (nb_stride p) rows r) \<longrightarrow>
       (\<forall>x y k. covered rs x y \<and> k < u32 (getBpp h (nb_format p)) \<longrightarrow>
          pixels w' (bits w) (pixel_byte (u32 (getBpp h (nb_format p))) (nb_stride b) x y k) =
          pixels w a (pixel_byte (u32 (getBpp h (nb_format p))) (nb_stride p) x y k)) \<and>
       (\<forall>q. q \<notin> (\<Union>r \<in> set rs. rect_bytes (u32 (getBpp h (nb_format p))) (nb_stride b) r) \<longrightarrow>
          pixels w' (bits w) q = pixels w (bits w) q) \<and>
       (\<forall>m. m \<noteq> bits w \<longrightarrow> pixels w' m = pixels w m)"
      by (intro allI impI) (rule F)
    show "\<forall>p a. oldDirtyRegion w = Rect_ltrb 0 0 100 100 \<and> \<not> isEmpty (dirtyRegion w) \<and>
       dirtyRegion w' = Rect_ltrb 0 0 50 100 \<and> previousBuffer w = Some p \<and>
       fst (lock h p w) = Some a \<longrightarrow>
       (\<exists>reg. region_rects reg = Some [Rect_ltrb 50 0 100 100] \<and>
              CopyBlt (nb_ptr b) (bits w) (nb_ptr p) a reg \<in> set (since w w'))"
      by (intro allI impI) (rule E)
  qed (rule A B C N)+
qed

text \<open>
  The update rectangle \<open>(-5,-10,50,200)\<close> on a buffer of 128 by 100 pixels is cut to
  \<open>(0,0,50,100)\<close>; with the previous region \<open>(0,0,100,100)\<close> the strip
  \<open>(50,0,100,100)\<close> is copied from the previous buffer, and the first byte of the
  pixel \<open>(50,0)\<close> changes from 0 to 7 while the last byte of the pixel \<open>(49,0)\<close>
  stays 0.
\<close>

theorem swapBuffers_copy_back_witness:
  "buffer clipped_frame = Some (short_buffer_at 2) \<and>
   \<not> isEmpty (dirtyRegion clipped_frame) \<and>
   oldDirtyRegion clipped_frame = Rect_ltrb 0 0 100 100 \<and>
   pixels clipped_frame 2097152 200 = 0 \<and>
   (\<exists>res w'. swapBuffers hal_rgba clipped_frame = Some (res, w') \<and>
      dirtyRegion w' = Rect_ltrb 0 0 50 100 \<and>
      oldDirtyRegion w' = Rect_ltrb 0 0 50 100 \<and>
      (\<exists>reg. region_rects reg = Some [Rect_ltrb 50 0 100 100] \<and>
         CopyBlt 2 2097152 1 1048576 reg \<in> set (since clipped_frame w')) \<and>
      pixels w' 2097152 200 = 7 \<and> pixels w' 2097152 199 = 0)"
proof -
  let ?reg = "\<lparr>rg_storage = [Some (Rect_ltrb 50 0 100 100), None, None, None], rg_count = 1\<rparr>"
  let ?rs = "[Rect_ltrb 50 0 100 100]"
  have b: "buffer clipped_frame = Some (short_buffer_at 2)"
    by (simp add: clipped_frame_def second_frame_def)
  have ne: "\<not> isEmpty (dirtyRegion clipped_frame)"
    by (simp add: clipped_frame_def isEmpty_def Rect_ltrb_def)
  have old: "oldDirtyRegion clipped_frame = Rect_ltrb 0 0 100 100"
    by (simp add: clipped_frame_def second_frame_def)
  have before: "pixels clipped_frame 2097152 200 = 0"
    by (simp add: clipped_frame_def)
  have "\<forall>n. dequeueBuffer hal_rgba n \<noteq> None" by (simp add: hal_rgba_def)
  then obtain res w' where r: "swapBuffers hal_rgba clipped_frame = Some (res, w')"
    using swapBuffers_returns [OF b] by blast
  note t = swapBuffers_copy_back [OF b r]
  have d: "dirtyRegion w' = Rect_ltrb 0 0 50 100" and o: "oldDirtyRegion w' = Rect_ltrb 0 0 50 100"
    using t [THEN conjunct2, THEN conjunct1] ne
    by (simp_all add: clipped_frame_def second_frame_def short_buffer_at_def Rect_ltrb_def)
  have bpp: "u32 (getBpp hal_rgba (nb_format (buffer_at 1))) = 4"
    by (simp add: hal_rgba_def u32_def)
  have lk: "fst (lock hal_rgba (buffer_at 1) clipped_frame) = Some 1048576"
    by (simp add: lock_def hal_rgba_def buffer_at_def)
  have pv: "previousBuffer clipped_frame = Some (buffer_at 1)"
    by (simp add: clipped_frame_def second_frame_def)
  have ex: "oldDirtyRegion clipped_frame = Rect_ltrb 0 0 100 100 \<and>
       \<not> isEmpty (dirtyRegion clipped_frame) \<and> dirtyRegion w' = Rect_ltrb 0 0 50 100 \<and>
       previousBuffer clipped_frame = Some (buffer_at 1) \<and>
       fst (lock hal_rgba (buffer_at 1) clipped_frame) = Some 1048576"
    using old ne d pv lk by simp
  have "\<exists>reg. region_rects reg = Some [Rect_ltrb 50 0 100 100] \<and>
      CopyBlt (nb_ptr (short_buffer_at 2)) (bits clipped_frame) (nb_ptr (buffer_at 1)) 1048576 reg
        \<in> set (since clipped_frame w')"
    by (rule t [THEN conjunct2, THEN conjunct2, THEN conjunct2, THEN conjunct2, THEN conjunct2,
      THEN conjunct2, THEN spec, THEN spec, THEN mp, OF ex])
  then have ev: "\<exists>reg. region_rects reg = Some [Rect_ltrb 50 0 100 100] \<and>
      CopyBlt 2 2097152 1 1048576 reg \<in> set (since clipped_frame w')"
    by (simp add: short_buffer_at_def buffer_at_def clipped_frame_def)
  have pre: "\<not> isEmpty (dirtyRegion clipped_frame) \<and>
       previousBuffer clipped_frame = Some (buffer_at 1) \<and>
       subtract (oldDirtyRegion clipped_frame) (dirtyRegion w') = Some ?reg \<and>
       \<not> Region_isEmpty ?reg \<and> fst (lock hal_rgba (buffer_at 1) clipped_frame) = Some 1048576 \<and>
       region_rects ?reg = Some ?rs \<and> blitengine clipped_frame = 0 \<and>
       (\<forall>r \<in> set ?rs. fits (u32 (getBpp hal_rgba (nb_format (buffer_at 1))))
          (nb_stride (short_buffer_at 2)) (nb_stride (buffer_at 1)) 100 r)"
    unfolding d bpp
    by (simp add: clipped_frame_def second_frame_def buffer_at_def short_buffer_at_def
        hal_rgba_def lock_def isEmpty_def Rect_ltrb_def subtract_def put_rect_def Region_init_def
        Region_isEmpty_def region_rects_def replicate4 max_T_def min_T_def fits_def Let_def)
  note f = t [THEN conjunct2, THEN conjunct2, THEN conjunct2, THEN conjunct2, THEN conjunct2,
      THEN conjunct1, THEN spec, THEN spec, THEN spec, THEN spec, THEN spec, THEN mp, OF pre]
  have c: "covered ?rs 50 0 \<and> 0 < u32 (getBpp hal_rgba (nb_format (buffer_at 1)))"
    unfolding bpp by (simp add: covered_def covers_def Rect_ltrb_def)
  have "pixels w' (bits clipped_frame)
          (pixel_byte (u32 (getBpp hal_rgba (nb_format (buffer_at 1))))
             (nb_stride (short_buffer_at 2)) 50 0 0) =
        pixels clipped_frame 1048576
          (pixel_byte (u32 (getBpp hal_rgba (nb_format (buffer_at 1)))) (nb_stride (buffer_at 1))
             50 0 0)"
    by (rule f [THEN conjunct1, THEN spec, THEN spec, THEN spec, THEN mp, OF c])
  then have copied: "pixels w' 2097152 200 = 7"
    unfolding bpp
    by (simp add: clipped_frame_def second_frame_def buffer_at_def short_buffer_at_def
        pixel_byte_def)
  have out: "199 \<notin> (\<Union>r \<in> set ?rs.
      rect_bytes (u32 (getBpp hal_rgba (nb_format (buffer_at 1))))
        (nb_stride (short_buffer_at 2)) r)"
    unfolding bpp by (auto simp: rect_bytes_def Rect_ltrb_def short_buffer_at_def)
  have "pixels w' (bits clipped_frame) 199 = pixels clipped_frame (bits clipped_frame) 199"
    by (rule f [THEN conjunct2, THEN conjunct1, THEN spec, THEN mp, OF out])
  then have kept: "pixels w' 2097152 199 = 0"
    by (simp add: clipped_frame_def second_frame_def)
  show ?thesis
    using b ne old before r d o ev copied kept by blast
qed

section \<open>Reference counts and locks\<close>


lemma audit_emit: "audit (trace (emit e w)) = account (audit (trace w)) e"
  by (simp add: audit_def emit_def)


















section \<open>Resizing in \<open>swapBuffers\<close>\<close>











section \<open>Pbuffer surface\<close>

lemma pbuffer_data:
  "pl_data (pbuffer (FGLPbufferSurface_new K alloc raw depthFormat w h f)) =
     alloc 0 (fst (pbuffer_switch K f (u32 (int32 (w * h)))
                     (pbuffer (raw\<lparr>pb_depth := (pb_depth raw)\<lparr>pl_version := sizeof_FGLPlane,
                        pl_data := 0, pl_format := depthFormat\<rparr>\<rparr>))))"
  by (simp add: FGLPbufferSurface_new_def Let_def split: prod.split)

lemma pbuffer_plane:
  "pbuffer (FGLPbufferSurface_new K alloc raw depthFormat w h f) =
     (snd (pbuffer_switch K f (u32 (int32 (w * h))) (pbuffer raw)))
       \<lparr>pl_version := sizeof_FGLPlane, pl_width := u32 w, pl_height := u32 h,
        pl_stride := u32 w,
        pl_data := alloc 0 (fst (pbuffer_switch K f (u32 (int32 (w * h))) (pbuffer raw))),
        pl_format := f\<rparr>"
  by (simp add: FGLPbufferSurface_new_def Let_def split: prod.split)

text \<open>
  For a format that is none of the four, the \<open>default\<close> branch stores the null pointer
  in \<open>pbuffer.data\<close>, and the assignment after the \<open>switch\<close> stores the answer of the
  allocator for \<open>w * h\<close> bytes over it: whether the plane is allocated is decided by
  the allocator, for every format.
\<close>

lemma pbuffer_allocator_decides:
  assumes "f \<noteq> FGL_PIXEL_FORMAT_A_8 K" "f \<noteq> FGL_PIXEL_FORMAT_RGB_565 K"
    "f \<noteq> FGL_PIXEL_FORMAT_RGBA_8888 K" "f \<noteq> FGL_PIXEL_FORMAT_RGBX_8888 K"
  shows "initCheck (FGLPbufferSurface_new K alloc raw depthFormat w h f) =
           (alloc 0 (u32 (int32 (w * h))) \<noteq> 0)"
  using assms by (simp add: initCheck_def pbuffer_data pbuffer_switch_def)

text \<open>
  With the allocator of this source tree, which always returns the null pointer,
  \<open>initCheck\<close> is false for every format, the four supported ones too.
\<close>

lemma pbuffer_placeholder_allocator:
  "\<not> initCheck (FGLPbufferSurface_new K fimgAllocMemory_unimplemented raw depthFormat w h f)"
  by (simp add: initCheck_def pbuffer_data fimgAllocMemory_unimplemented_def)

text \<open>
  Claim C8. The constructor is a total function: for every argument it returns a
  surface. With the allocator of this source tree, when the format is none of the four
  of the \<open>switch\<close>, the colour plane of that surface has the width, height, stride and
  format asked for and a null data pointer, and \<open>initCheck\<close> is false.
\<close>

theorem pbuffer_unsupported_format:
  "f \<noteq> FGL_PIXEL_FORMAT_A_8 K \<and> f \<noteq> FGL_PIXEL_FORMAT_RGB_565 K \<and>
   f \<noteq> FGL_PIXEL_FORMAT_RGBA_8888 K \<and> f \<noteq> FGL_PIXEL_FORMAT_RGBX_8888 K \<longrightarrow>
     pbuffer (FGLPbufferSurface_new K fimgAllocMemory_unimplemented raw depthFormat w h f) =
       (pbuffer raw)\<lparr>pl_version := sizeof_FGLPlane, pl_width := u32 w, pl_height := u32 h,
                     pl_stride := u32 w, pl_data := 0, pl_format := f\<rparr> \<and>
     pl_data (pbuffer
       (FGLPbufferSurface_new K fimgAllocMemory_unimplemented raw depthFormat w h f)) = 0 \<and>
     \<not> initCheck (FGLPbufferSurface_new K fimgAllocMemory_unimplemented raw depthFormat w h f)"
  by (simp add: initCheck_def pbuffer_plane pbuffer_switch_def fimgAllocMemory_unimplemented_def)

theorem pbuffer_unsupported_format_witness:
  "0 \<noteq> FGL_PIXEL_FORMAT_A_8 example_formats \<and> 0 \<noteq> FGL_PIXEL_FORMAT_RGB_565 example_formats \<and>
   0 \<noteq> FGL_PIXEL_FORMAT_RGBA_8888 example_formats \<and>
   0 \<noteq> FGL_PIXEL_FORMAT_RGBX_8888 example_formats \<and>
   pl_data (pbuffer raw_pbuffer) = 57005 \<and>
   pl_data (pbuffer
     (FGLPbufferSurface_new example_formats fimgAllocMemory_unimplemented raw_pbuffer 0 2 2 0)) = 0 \<and>
   \<not> initCheck
     (FGLPbufferSurface_new example_formats fimgAllocMemory_unimplemented raw_pbuffer 0 2 2 0)"
  using pbuffer_unsupported_format [of 0 example_formats raw_pbuffer 0 2 2]
  by (simp add: example_formats_def raw_pbuffer_def)

end
